theory Spec2Isabelle
  imports Complex_Main
begin

section \<open>Data model of the solid elasticity plugin\<close>

text \<open>
  The embedding follows \<^verbatim>\<open>plugin/elasticity/solid.cc\<close>.

  \<^item> \<^verbatim>\<open>mjtNum\<close> (a C double) is modelled by the reals: all statements about forces and
    metric tensors are statements in exact arithmetic, where division by zero yields
    \<open>0\<close> instead of an IEEE infinity or NaN.
  \<^item> C \<^verbatim>\<open>int\<close> values read from the input (vertex indices, the supplied edge ids, body
    and flex ids) are unbounded integers; the counters \<^verbatim>\<open>nv\<close>, \<^verbatim>\<open>ne\<close>,
    \<^verbatim>\<open>nt\<close> and the edge ids drawn from \<^verbatim>\<open>ne\<close> start at zero and only grow, so they
    are natural numbers. Index arithmetic is assumed not to overflow.
  \<^item> Host arrays reached through raw pointers (\<^verbatim>\<open>m->body_pos\<close>, \<^verbatim>\<open>d->xpos\<close>,
    \<^verbatim>\<open>d->qfrc_passive\<close>, ...) are memories indexed by an integer offset; the plugin never
    checks their bounds. The vectors owned by the instance are lists.
  \<^item> \<^verbatim>\<open>mju_error\<close> and a failing \<^verbatim>\<open>assert\<close> abort the construction; together with the
    empty optional returned by the factory they are the values of the type \<open>error\<close>.
\<close>

type_synonym mjtNum = real

datatype error = InvalidParameter | AssertionFailed | BodyWithoutPlugin

abbreviation kNumEdges :: nat where "kNumEdges \<equiv> 6"
abbreviation kNumVerts :: nat where "kNumVerts \<equiv> 4"

text \<open>Local tetrahedron numbering: the three constant tables of the source.\<close>

definition edge :: "nat list list" where
  "edge = [[0, 1], [1, 2], [2, 0], [2, 3], [0, 3], [1, 3]]"

definition face :: "nat list list" where
  "face = [[2, 1, 0], [0, 1, 3], [1, 2, 3], [2, 0, 3]]"

definition e2f :: "nat list list" where
  "e2f = [[2, 3], [1, 3], [2, 1], [1, 0], [0, 2], [0, 3]]"

text \<open>
  \<^verbatim>\<open>Stencil3D\<close> (declared in \<^verbatim>\<open>solid.h\<close>): four vertex indices and six edge ids. The
  field \<^verbatim>\<open>edges\<close> of the stencil is called \<open>edges_of\<close> here, since the instance has a
  member \<^verbatim>\<open>edges\<close> of its own.
\<close>

record Stencil3D =
  vertices :: "int list"
  edges_of :: "nat list"

text \<open>The fields of \<^verbatim>\<open>mjModel\<close> and \<^verbatim>\<open>mjData\<close> that the plugin reads or writes.\<close>

record mjModel =
  nbody :: nat
  body_plugin :: "int \<Rightarrow> int"
  body_pos :: "int \<Rightarrow> mjtNum"
  body_dofadr :: "int \<Rightarrow> int"
  nflex :: nat
  flex_vertadr :: "int \<Rightarrow> int"
  flex_vertbodyid :: "int \<Rightarrow> int"
  flex_edgeadr :: "int \<Rightarrow> int"
  flexedge_length0 :: "int \<Rightarrow> mjtNum"
  opt_timestep :: mjtNum

record mjData =
  xpos :: "int \<Rightarrow> mjtNum"
  flexedge_length :: "int \<Rightarrow> mjtNum"
  qfrc_passive :: "int \<Rightarrow> mjtNum"

text \<open>The members of the class \<^verbatim>\<open>Solid\<close>.\<close>

record Solid =
  f0 :: int
  damping :: mjtNum
  nv :: nat
  ne :: nat
  nt :: nat
  i0 :: int
  elements :: "Stencil3D list"
  edges :: "(int \<times> int) list"
  metric :: "mjtNum list"
  reference :: "mjtNum list"
  deformed :: "mjtNum list"
  previous :: "mjtNum list"

section \<open>Geometry kernels\<close>

text \<open>Pointer arithmetic \<^verbatim>\<open>x + k\<close> on a host array, and the three numbers stored at an
  offset.\<close>

definition ptr_add :: "(int \<Rightarrow> mjtNum) \<Rightarrow> int \<Rightarrow> int \<Rightarrow> mjtNum" where
  "ptr_add x k = (\<lambda>j. x (k + j))"

definition vec3_at :: "(int \<Rightarrow> mjtNum) \<Rightarrow> int \<Rightarrow> mjtNum list" where
  "vec3_at x p = [x p, x (p + 1), x (p + 2)]"

text \<open>
  Modelled from the spec: the host's vector utilities \<^verbatim>\<open>mju_sub3\<close>, \<^verbatim>\<open>mju_cross\<close>
  and \<^verbatim>\<open>mju_dot3\<close> are not part of the plugin source; the specification uses them as
  difference, cross product and dot product of 3-vectors.
\<close>

definition mju_sub3 :: "mjtNum list \<Rightarrow> mjtNum list \<Rightarrow> mjtNum list" where
  "mju_sub3 a b = [a ! 0 - b ! 0, a ! 1 - b ! 1, a ! 2 - b ! 2]"

definition mju_cross :: "mjtNum list \<Rightarrow> mjtNum list \<Rightarrow> mjtNum list" where
  "mju_cross a b =
     [a ! 1 * b ! 2 - a ! 2 * b ! 1,
      a ! 2 * b ! 0 - a ! 0 * b ! 2,
      a ! 0 * b ! 1 - a ! 1 * b ! 0]"

definition mju_dot3 :: "mjtNum list \<Rightarrow> mjtNum list \<Rightarrow> mjtNum" where
  "mju_dot3 a b = a ! 0 * b ! 0 + a ! 1 * b ! 1 + a ! 2 * b ! 2"

text \<open>\<^verbatim>\<open>ComputeVolume\<close>: signed volume of a tetrahedron.\<close>

definition ComputeVolume :: "(int \<Rightarrow> mjtNum) \<Rightarrow> int list \<Rightarrow> mjtNum" where
  "ComputeVolume x v =
     (let edge1 = mju_sub3 (vec3_at x (3 * v ! 1)) (vec3_at x (3 * v ! 0));
          edge2 = mju_sub3 (vec3_at x (3 * v ! 2)) (vec3_at x (3 * v ! 0));
          edge3 = mju_sub3 (vec3_at x (3 * v ! 3)) (vec3_at x (3 * v ! 0));
          normal = mju_cross edge2 edge1
      in mju_dot3 normal edge3 / 6)"

text \<open>\<^verbatim>\<open>ComputeBasis\<close>: the nine entries \<^verbatim>\<open>basis[3*i+j]\<close>, in the order of the two loops.\<close>

definition ComputeBasis ::
  "(int \<Rightarrow> mjtNum) \<Rightarrow> int list \<Rightarrow> nat list \<Rightarrow> nat list \<Rightarrow> mjtNum \<Rightarrow> mjtNum list" where
  "ComputeBasis x v faceL faceR volume =
     (let edgesL0 = mju_sub3 (vec3_at x (3 * v ! (faceL ! 1))) (vec3_at x (3 * v ! (faceL ! 0)));
          edgesL3 = mju_sub3 (vec3_at x (3 * v ! (faceL ! 2))) (vec3_at x (3 * v ! (faceL ! 0)));
          edgesR0 = mju_sub3 (vec3_at x (3 * v ! (faceR ! 1))) (vec3_at x (3 * v ! (faceR ! 0)));
          edgesR3 = mju_sub3 (vec3_at x (3 * v ! (faceR ! 2))) (vec3_at x (3 * v ! (faceR ! 0)));
          normalL = mju_cross edgesL0 edgesL3;
          normalR = mju_cross edgesR0 edgesR3
      in [(normalL ! i * normalR ! j + normalR ! i * normalL ! j) / (36 * 2 * volume * volume).
            i \<leftarrow> [0..<3], j \<leftarrow> [0..<3]])"

text \<open>\<^verbatim>\<open>GradSquaredLengths\<close>: the entry \<^verbatim>\<open>gradient[e][i][d]\<close>, for \<open>i\<close> in \<open>{0, 1}\<close>.\<close>

definition GradSquaredLengths ::
  "(int \<Rightarrow> mjtNum) \<Rightarrow> int list \<Rightarrow> nat list list \<Rightarrow> nat \<Rightarrow> nat \<Rightarrow> nat \<Rightarrow> mjtNum" where
  "GradSquaredLengths x v edg e i d =
     (if i = 0
      then x (3 * v ! (edg ! e ! 0) + int d) - x (3 * v ! (edg ! e ! 1) + int d)
      else x (3 * v ! (edg ! e ! 1) + int d) - x (3 * v ! (edg ! e ! 0) + int d))"

text \<open>
  Modelled from the spec: \<^verbatim>\<open>UpdateSquaredLengths\<close> is defined in \<^verbatim>\<open>elasticity.h\<close>,
  which is not among the sources. The specification says that it recomputes, for every
  edge, the squared Euclidean length of the edge from the given positions, in place.
\<close>

definition squared_length :: "(int \<Rightarrow> mjtNum) \<Rightarrow> int \<times> int \<Rightarrow> mjtNum" where
  "squared_length x p =
     (let e = mju_sub3 (vec3_at x (3 * snd p)) (vec3_at x (3 * fst p)) in mju_dot3 e e)"

definition UpdateSquaredLengths ::
  "mjtNum list \<Rightarrow> (int \<times> int) list \<Rightarrow> (int \<Rightarrow> mjtNum) \<Rightarrow> mjtNum list" where
  "UpdateSquaredLengths len es x =
     fold (\<lambda>idx l. l[idx := squared_length x (es ! idx)]) [0..<length es] len"

section \<open>Stencil builder\<close>

text \<open>
  The state of the two loops of \<^verbatim>\<open>CreateStencils\<close>: the map \<^verbatim>\<open>edge_indices\<close>, the
  vector \<^verbatim>\<open>edges\<close> and the counter \<^verbatim>\<open>ne\<close>.
\<close>

type_synonym stencil_state = "((int \<times> int) \<rightharpoonup> nat) \<times> (int \<times> int) list \<times> nat"

text \<open>The pair \<^verbatim>\<open>(min, max)\<close> of the two vertices of local edge \<open>e\<close>.\<close>

definition edge_pair :: "int list \<Rightarrow> nat \<Rightarrow> int \<times> int" where
  "edge_pair v e =
     (min (v ! (edge ! e ! 0)) (v ! (edge ! e ! 1)), max (v ! (edge ! e ! 0)) (v ! (edge ! e ! 1)))"

text \<open>\<^verbatim>\<open>edge_indices.insert({pair, ne})\<close> and the branch on \<^verbatim>\<open>inserted\<close>: the id stored in
  the element, and the new state.\<close>

definition insert_edge :: "int \<times> int \<Rightarrow> stencil_state \<Rightarrow> nat \<times> stencil_state" where
  "insert_edge pair st =
     (case st of (edge_indices, es, n) \<Rightarrow>
        (case edge_indices pair of
           None \<Rightarrow> (n, (edge_indices(pair \<mapsto> n), es @ [pair], Suc n))
         | Some k \<Rightarrow> (k, (edge_indices, es, n))))"

text \<open>The inner loop over the local edges of tetrahedron \<open>t\<close>, with the assertion against
  the supplied edge ids as it is compiled in a debug build. A supplied array that is too
  short to hold the entry \<^verbatim>\<open>edgeidx[6*t+e]\<close> counts as a failed assertion.\<close>

fun edge_loop ::
  "int list \<Rightarrow> int list \<Rightarrow> nat \<Rightarrow> nat list \<Rightarrow> stencil_state \<Rightarrow> error + (nat list \<times> stencil_state)" where
  "edge_loop v edgeidx t [] st = Inr ([], st)"
| "edge_loop v edgeidx t (e # es) st =
     (case insert_edge (edge_pair v e) st of (k, st') \<Rightarrow>
        if edgeidx \<noteq> [] \<and> \<not> (kNumEdges * t + e < length edgeidx \<and> int k = edgeidx ! (kNumEdges * t + e))
        then Inl AssertionFailed
        else (case edge_loop v edgeidx t es st' of
                Inl err \<Rightarrow> Inl err
              | Inr (ks, st'') \<Rightarrow> Inr (k # ks, st'')))"

text \<open>The outer loop over the tetrahedra, starting at index \<open>t\<close>.\<close>

fun tet_loop ::
  "int list \<Rightarrow> nat \<Rightarrow> Stencil3D list \<Rightarrow> stencil_state \<Rightarrow> error + (Stencil3D list \<times> stencil_state)" where
  "tet_loop edgeidx t [] st = Inr ([], st)"
| "tet_loop edgeidx t (el # els) st =
     (case edge_loop (vertices el) edgeidx t [0..<kNumEdges] st of
        Inl err \<Rightarrow> Inl err
      | Inr (ks, st') \<Rightarrow>
          (case tet_loop edgeidx (Suc t) els st' of
             Inl err \<Rightarrow> Inl err
           | Inr (els', st'') \<Rightarrow> Inr (el\<lparr>edges_of := ks\<rparr> # els', st'')))"

text \<open>\<^verbatim>\<open>Solid::CreateStencils\<close>. The first loop fills the vertices of the \<open>nt\<close> elements
  created by \<^verbatim>\<open>resize\<close>; the second assigns the edge ids.\<close>

definition populate :: "int list \<Rightarrow> nat \<Rightarrow> Stencil3D list" where
  "populate simplex n =
     map (\<lambda>t. \<lparr>vertices = map (\<lambda>v. simplex ! (kNumVerts * t + v)) [0..<kNumVerts],
               edges_of = replicate kNumEdges 0\<rparr>) [0..<n]"

definition CreateStencils :: "Solid \<Rightarrow> int list \<Rightarrow> int list \<Rightarrow> error + Solid" where
  "CreateStencils s simplex edgeidx =
     (let n = length simplex div kNumVerts;
          els = populate simplex n
      in case tet_loop edgeidx 0 els (Map.empty, edges s, ne s) of
           Inl err \<Rightarrow> Inl err
         | Inr (els', (edge_indices, es, k)) \<Rightarrow>
             Inr (s\<lparr>nt := n, elements := els', edges := es, ne := k\<rparr>))"

section \<open>Metric assembler and constructor\<close>

text \<open>
  The body of the loop over the tetrahedra in the constructor: volume, the six edge bases,
  the invariants \<^verbatim>\<open>trT\<close> and \<^verbatim>\<open>trTT\<close>, the material parameters \<^verbatim>\<open>mu\<close> and
  \<^verbatim>\<open>la\<close>, and the 36 entries \<^verbatim>\<open>metric[36*t + 6*ed1 + ed2]\<close> of the tetrahedron, in
  the order of the two assembly loops.
\<close>

definition element_metric :: "(int \<Rightarrow> mjtNum) \<Rightarrow> mjtNum \<Rightarrow> mjtNum \<Rightarrow> int list \<Rightarrow> mjtNum list" where
  "element_metric x nu E v =
     (let volume = ComputeVolume x v;
          basis = map (\<lambda>e. ComputeBasis x v (face ! (e2f ! e ! 0)) (face ! (e2f ! e ! 1)) volume)
                    [0..<kNumEdges];
          trT = map (\<lambda>e. \<Sum>i\<leftarrow>[0..<3]. basis ! e ! (4 * i)) [0..<kNumEdges];
          trTT = [\<Sum>i\<leftarrow>[0..<3]. \<Sum>j\<leftarrow>[0..<3]. basis ! ed1 ! (3 * i + j) * basis ! ed2 ! (3 * j + i).
                    ed1 \<leftarrow> [0..<kNumEdges], ed2 \<leftarrow> [0..<kNumEdges]];
          mu = E / (2 * (1 + nu)) * volume;
          la = E * nu / ((1 + nu) * (1 - 2 * nu)) * volume
      in [mu * trTT ! (kNumEdges * ed1 + ed2) + la * trT ! ed2 * trT ! ed1.
            ed1 \<leftarrow> [0..<kNumEdges], ed2 \<leftarrow> [0..<kNumEdges]])"

text \<open>
  The loop over the tetrahedra: \<^verbatim>\<open>mju_error\<close> when a vertex of the tetrahedron is a body
  without the plugin instance, otherwise the block of the tetrahedron is written into
  \<^verbatim>\<open>metric\<close>. The blocks are consecutive, so the vector is their concatenation.
\<close>

fun metric_loop ::
  "mjModel \<Rightarrow> int \<Rightarrow> int \<Rightarrow> mjtNum \<Rightarrow> mjtNum \<Rightarrow> Stencil3D list \<Rightarrow> error + mjtNum list" where
  "metric_loop m inst b nu E [] = Inr []"
| "metric_loop m inst b nu E (el # els) =
     (if list_ex (\<lambda>i. body_plugin m (b + vertices el ! i) \<noteq> inst) [0..<kNumVerts]
      then Inl BodyWithoutPlugin
      else (case metric_loop m inst b nu E els of
              Inl err \<Rightarrow> Inl err
            | Inr M \<Rightarrow> Inr (element_metric (ptr_add (body_pos m) (3 * b)) nu E (vertices el) @ M)))"

text \<open>
  The constructor \<^verbatim>\<open>Solid::Solid\<close>. The member \<^verbatim>\<open>i0\<close> is assigned only when a body
  carries the plugin instance; \<open>i0_init\<close> is the value it holds otherwise.
\<close>

definition Solid_Solid ::
  "mjModel \<Rightarrow> int \<Rightarrow> mjtNum \<Rightarrow> mjtNum \<Rightarrow> mjtNum \<Rightarrow> int list \<Rightarrow> int list \<Rightarrow> int \<Rightarrow> error + Solid" where
  "Solid_Solid m inst nu E damp simplex edgeidx i0_init =
     (let bodies = filter (\<lambda>i. body_plugin m (int i) = inst) [1..<nbody m];
          b = (case bodies of [] \<Rightarrow> i0_init | i # _ \<Rightarrow> int i);
          flexes = filter (\<lambda>i. flex_vertbodyid m (flex_vertadr m (int i)) = b) [0..<nflex m];
          s = \<lparr>f0 = (case flexes of [] \<Rightarrow> - 1 | i # _ \<Rightarrow> int i), damping = damp,
               nv = length bodies, ne = 0, nt = 0, i0 = b, elements = [], edges = [],
               metric = [], reference = [], deformed = [], previous = []\<rparr>
      in case CreateStencils s simplex edgeidx of
           Inl err \<Rightarrow> Inl err
         | Inr s1 \<Rightarrow>
             (case metric_loop m inst (i0 s1) nu E (elements s1) of
                Inl err \<Rightarrow> Inl err
              | Inr M \<Rightarrow>
                  (let ref = UpdateSquaredLengths (replicate (ne s1) 0) (edges s1)
                               (ptr_add (body_pos m) (3 * i0 s1))
                   in Inr (s1\<lparr>metric := M, reference := ref,
                               deformed := replicate (ne s1) 0, previous := ref\<rparr>))))"

text \<open>
  The factory \<^verbatim>\<open>Solid::Create\<close>. \<^verbatim>\<open>CheckAttr\<close>, \<^verbatim>\<open>String2Vector\<close> and the host's
  configuration lookup are not among the sources: the outcome of \<^verbatim>\<open>CheckAttr\<close> for each
  attribute name and the parsed attribute values are parameters.
\<close>

definition Solid_Create ::
  "(string \<Rightarrow> bool) \<Rightarrow> mjtNum \<Rightarrow> mjtNum \<Rightarrow> mjtNum \<Rightarrow> int list \<Rightarrow> int list \<Rightarrow>
   mjModel \<Rightarrow> int \<Rightarrow> int \<Rightarrow> error + Solid" where
  "Solid_Create CheckAttr nu E damp face_attr edge_attr m inst i0_init =
     (if CheckAttr ''face'' \<and> CheckAttr ''edge'' \<and> CheckAttr ''poisson'' \<and> CheckAttr ''young''
      then Solid_Solid m inst nu E damp face_attr edge_attr i0_init
      else Inl InvalidParameter)"

section \<open>Force evaluator\<close>

text \<open>The array \<^verbatim>\<open>elongation\<close> of tetrahedron \<open>t\<close>.\<close>

definition elongation :: "mjModel \<Rightarrow> mjData \<Rightarrow> Solid \<Rightarrow> nat \<Rightarrow> mjtNum list" where
  "elongation m d s t =
     map (\<lambda>e.
       if f0 s < 0
       then (let idx = edges_of (elements s ! t) ! e;
                 kD = damping s / opt_timestep m
             in deformed s ! idx - reference s ! idx + (deformed s ! idx - previous s ! idx) * kD)
       else (let idx = int (edges_of (elements s ! t) ! e) + flex_edgeadr m (f0 s);
                 deformed' = flexedge_length d idx * flexedge_length d idx;
                 reference' = flexedge_length0 m idx * flexedge_length0 m idx
             in deformed' - reference'))
       [0..<kNumEdges]"

text \<open>The four nested loops that accumulate the local force of tetrahedron \<open>t\<close>.\<close>

definition local_force ::
  "mjtNum list \<Rightarrow> (nat \<Rightarrow> nat \<Rightarrow> nat \<Rightarrow> mjtNum) \<Rightarrow> mjtNum list \<Rightarrow> nat \<Rightarrow> mjtNum list" where
  "local_force elong gradient M t =
     fold (\<lambda>ed1. fold (\<lambda>ed2. fold (\<lambda>i. fold (\<lambda>x force.
         force[3 * (edge ! ed2 ! i) + x :=
                 force ! (3 * (edge ! ed2 ! i) + x) +
                 elong ! ed1 * gradient ed2 i x *
                 M ! (kNumEdges * kNumEdges * t + kNumEdges * ed1 + ed2)])
       [0..<3]) [0..<2]) [0..<kNumEdges]) [0..<kNumEdges]
       (replicate (kNumVerts * 3) 0)"

text \<open>Insertion of a local force into \<^verbatim>\<open>qfrc_passive\<close>, at the dofs of the four vertices.\<close>

definition insert_force ::
  "(int \<Rightarrow> mjtNum) \<Rightarrow> int \<Rightarrow> int list \<Rightarrow> mjtNum list \<Rightarrow> int \<Rightarrow> mjtNum" where
  "insert_force q adr v force =
     fold (\<lambda>i. fold (\<lambda>x q'.
         q'(adr + 3 * v ! i + int x := q' (adr + 3 * v ! i + int x) - force ! (3 * i + x)))
       [0..<3]) [0..<kNumVerts] q"

text \<open>One iteration of the loop over the elements.\<close>

definition element_step :: "mjModel \<Rightarrow> mjData \<Rightarrow> Solid \<Rightarrow> nat \<Rightarrow> (int \<Rightarrow> mjtNum) \<Rightarrow> int \<Rightarrow> mjtNum" where
  "element_step m d s t q =
     (let v = vertices (elements s ! t);
          gradient = GradSquaredLengths (ptr_add (xpos d) (3 * i0 s)) v edge;
          force = local_force (elongation m d s t) gradient (metric s) t
      in insert_force q (body_dofadr m (i0 s)) v force)"

text \<open>\<^verbatim>\<open>Solid::Compute\<close>: the new host data and the new state of the instance.\<close>

definition Compute :: "mjModel \<Rightarrow> mjData \<Rightarrow> Solid \<Rightarrow> mjData \<times> Solid" where
  "Compute m d s =
     (let s1 = (if f0 s < 0
                then s\<lparr>deformed := UpdateSquaredLengths (deformed s) (edges s)
                                      (ptr_add (xpos d) (3 * i0 s))\<rparr>
                else s);
          q = fold (element_step m d s1) [0..<nt s1] (qfrc_passive d);
          s2 = (if f0 s1 < 0 then s1\<lparr>previous := deformed s1\<rparr> else s1)
      in (d\<lparr>qfrc_passive := q\<rparr>, s2))"

text \<open>The states an instance goes through: \<open>reachable m s0 s\<close> holds when \<open>s\<close> results
  from \<open>s0\<close> by any number of calls of \<^verbatim>\<open>Compute\<close> with the model \<open>m\<close>.\<close>

inductive reachable :: "mjModel \<Rightarrow> Solid \<Rightarrow> Solid \<Rightarrow> bool" for m :: mjModel and s0 :: Solid where
  start: "reachable m s0 s0"
| step: "reachable m s0 s \<Longrightarrow> reachable m s0 (snd (Compute m d s))"

section \<open>Notions used in the statements\<close>

text \<open>The four vertices of tetrahedron \<open>t\<close> of the input, the normalised pairs of all
  (tetrahedron, local edge) occurrences in the order of the two loops, and the unordered
  vertex pair of an occurrence.\<close>

definition tet :: "int list \<Rightarrow> nat \<Rightarrow> int list" where
  "tet simplex t = map (\<lambda>v. simplex ! (kNumVerts * t + v)) [0..<kNumVerts]"

definition all_pairs :: "int list \<Rightarrow> (int \<times> int) list" where
  "all_pairs simplex =
     concat (map (\<lambda>t. map (edge_pair (tet simplex t)) [0..<kNumEdges])
                 [0..<length simplex div kNumVerts])"

definition upair :: "int list \<Rightarrow> nat \<Rightarrow> int set" where
  "upair v e = {v ! (edge ! e ! 0), v ! (edge ! e ! 1)}"

text \<open>The invariant of the stencil loops, for the list \<open>seen\<close> of the pairs processed so
  far.\<close>

definition stencil_inv :: "(int \<times> int) list \<Rightarrow> stencil_state \<Rightarrow> bool" where
  "stencil_inv seen st =
     (case st of (edge_indices, es, n) \<Rightarrow>
        n = length es \<and> es = rev (remdups (rev seen)) \<and>
        (\<forall>p k. edge_indices p = Some k \<longleftrightarrow> (k < length es \<and> es ! k = p)))"

definition occurrences :: "Stencil3D list \<Rightarrow> (int \<times> int) list" where
  "occurrences els = concat (map (\<lambda>el. map (edge_pair (vertices el)) [0..<kNumEdges]) els)"

section \<open>A concrete mesh\<close>

text \<open>Two tetrahedra that share the face with the vertices 1, 2 and 3, the members of a
  new instance before the stencils are built, and the stencils of the mesh.\<close>

definition ex_simplex :: "int list" where
  "ex_simplex = [0, 1, 2, 3, 1, 2, 3, 4]"

definition ex_blank :: Solid where
  "ex_blank = \<lparr>f0 = - 1, damping = 0, nv = 5, ne = 0, nt = 0, i0 = 1, elements = [], edges = [],
      metric = [], reference = [], deformed = [], previous = []\<rparr>"

definition ex_stencil :: Solid where
  "ex_stencil = \<lparr>f0 = - 1, damping = 0, nv = 5, ne = 9, nt = 2, i0 = 1,
        elements =
          [\<lparr>vertices = [0, 1, 2, 3], edges_of = [0, 1, 2, 3, 4, 5]\<rparr>,
           \<lparr>vertices = [1, 2, 3, 4], edges_of = [1, 3, 5, 6, 7, 8]\<rparr>],
        edges = [(0, 1), (1, 2), (0, 2), (2, 3), (0, 3), (1, 3), (3, 4), (1, 4), (2, 4)],
        metric = [], reference = [], deformed = [], previous = []\<rparr>"

text \<open>The stencils of the single tetrahedron with the vertices 0, 1, 2 and 3.\<close>

definition ex_single :: Solid where
  "ex_single = ex_blank\<lparr>ne := 6, nt := 1,
            elements := [\<lparr>vertices = [0, 1, 2, 3], edges_of = [0, 1, 2, 3, 4, 5]\<rparr>],
            edges := [(0, 1), (1, 2), (0, 2), (2, 3), (0, 3), (1, 3)]\<rparr>"

text \<open>
  A host model for the mesh of two tetrahedra: the world body and five bodies that carry
  the plugin instance 0, at the positions \<open>(0,0,0)\<close>, \<open>(0,1,0)\<close>, \<open>(1,0,0)\<close>,
  \<open>(0,0,1)\<close> and \<open>(1,1,1)\<close>; no flex; time step \<open>1/500\<close>. Both tetrahedra have positive
  volume. \<open>ex_solid\<close> is the instance that the constructor builds for Poisson ratio
  \<open>3/10\<close>, Young's modulus \<open>100\<close> and damping \<open>0\<close>.
\<close>

definition ex_model :: mjModel where
  "ex_model = \<lparr>nbody = 6,
      body_plugin = (\<lambda>i. if 1 \<le> i \<and> i \<le> 5 then 0 else - 1),
      body_pos = ((\<lambda>k. 0)(7 := 1, 9 := 1, 14 := 1, 15 := 1, 16 := 1, 17 := 1)),
      body_dofadr = (\<lambda>i. 3 * (i - 1)),
      nflex = 0,
      flex_vertadr = (\<lambda>i. 0),
      flex_vertbodyid = (\<lambda>i. 0),
      flex_edgeadr = (\<lambda>i. 0),
      flexedge_length0 = (\<lambda>i. 0),
      opt_timestep = 1 / 500\<rparr>"

definition ex_solid :: Solid where
  "ex_solid = \<lparr>f0 = - 1, damping = 0, nv = 5, ne = 9, nt = 2, i0 = 1,
        elements =
          [\<lparr>vertices = [0, 1, 2, 3], edges_of = [0, 1, 2, 3, 4, 5]\<rparr>,
           \<lparr>vertices = [1, 2, 3, 4], edges_of = [1, 3, 5, 6, 7, 8]\<rparr>],
        edges = [(0, 1), (1, 2), (0, 2), (2, 3), (0, 3), (1, 3), (3, 4), (1, 4), (2, 4)],
        metric =
          [875 / 39, - (125 / 39), 500 / 39, 0, 500 / 39, - (125 / 39),
           - (125 / 39), 125 / 39, - (125 / 39), 0, 0, 0,
           500 / 39, - (125 / 39), 875 / 39, - (125 / 39), 500 / 39, 0,
           0, 0, - (125 / 39), 125 / 39, - (125 / 39), 0,
           500 / 39, 0, 500 / 39, - (125 / 39), 875 / 39, - (125 / 39),
           - (125 / 39), 0, 0, 0, - (125 / 39), 125 / 39,
           125 / 24, 125 / 312, 125 / 312, 625 / 312, 125 / 312, 125 / 312,
           125 / 312, 125 / 24, 125 / 312, 125 / 312, 625 / 312, 125 / 312,
           125 / 312, 125 / 312, 125 / 24, 125 / 312, 125 / 312, 625 / 312,
           625 / 312, 125 / 312, 125 / 312, 125 / 24, 125 / 312, 125 / 312,
           125 / 312, 625 / 312, 125 / 312, 125 / 312, 125 / 24, 125 / 312,
           125 / 312, 125 / 312, 625 / 312, 125 / 312, 125 / 312, 125 / 24],
        reference = [1, 2, 1, 2, 1, 2, 2, 2, 2],
        deformed = [0, 0, 0, 0, 0, 0, 0, 0, 0],
        previous = [1, 2, 1, 2, 1, 2, 2, 2, 2]\<rparr>"

text \<open>
  Host data for the concrete mesh: \<open>ex_data\<close> moves the second vertex from \<open>(0,1,0)\<close> to
  \<open>(0,2,0)\<close>; \<open>ex_rest_data\<close> has every body at its rest position. In \<open>cx_data1\<close> and
  \<open>cx_data2\<close> the second vertex is at \<open>(0,1/2,0)\<close> and then at \<open>(0,3/4,0)\<close>: the edge
  between the first two vertices is shorter than at rest and growing. \<open>ex_damped\<close> is the
  instance with damping \<open>1/1000\<close>, and \<open>cx_state\<close> holds the lengths of the instance
  when \<^verbatim>\<open>Compute\<close> runs on \<open>cx_data2\<close> after a step on \<open>cx_data1\<close>.
\<close>

definition ex_data :: mjData where
  "ex_data = \<lparr>xpos = (body_pos ex_model)(7 := 2),
     flexedge_length = (\<lambda>i. 0), qfrc_passive = (\<lambda>i. 0)\<rparr>"

definition ex_rest_data :: mjData where
  "ex_rest_data = \<lparr>xpos = body_pos ex_model,
     flexedge_length = (\<lambda>i. 0), qfrc_passive = (\<lambda>i. 0)\<rparr>"

definition cx_data1 :: mjData where
  "cx_data1 = \<lparr>xpos = (body_pos ex_model)(7 := 1 / 2),
     flexedge_length = (\<lambda>i. 0), qfrc_passive = (\<lambda>i. 0)\<rparr>"

definition cx_data2 :: mjData where
  "cx_data2 = \<lparr>xpos = (body_pos ex_model)(7 := 3 / 4),
     flexedge_length = (\<lambda>i. 0), qfrc_passive = (\<lambda>i. 0)\<rparr>"

definition ex_damped :: Solid where
  "ex_damped = ex_solid\<lparr>damping := 1 / 1000\<rparr>"

definition cx_state :: Solid where
  "cx_state = ex_damped\<lparr>deformed := [9 / 16, 25 / 16, 1, 2, 1, 25 / 16, 2, 33 / 16, 2],
                         previous := [1 / 4, 5 / 4, 1, 2, 1, 5 / 4, 2, 9 / 4, 2]\<rparr>"

text \<open>
  The bodies of the two outer loops of the force accumulation, as functions of the local
  force: \<open>local_force\<close> is the fold of \<open>force_row\<close> over the first edge index (lemma
  \<open>local_force_rows\<close>), so that a concrete local force is computed loop by loop.
\<close>

definition force_cell ::
  "mjtNum list \<Rightarrow> (nat \<Rightarrow> nat \<Rightarrow> nat \<Rightarrow> mjtNum) \<Rightarrow> mjtNum list \<Rightarrow> nat \<Rightarrow> nat \<Rightarrow> nat \<Rightarrow>
   mjtNum list \<Rightarrow> mjtNum list" where
  "force_cell elong gradient M t ed1 ed2 F =
     fold (\<lambda>i. fold (\<lambda>x force.
         force[3 * (edge ! ed2 ! i) + x :=
                 force ! (3 * (edge ! ed2 ! i) + x) +
                 elong ! ed1 * gradient ed2 i x *
                 M ! (kNumEdges * kNumEdges * t + kNumEdges * ed1 + ed2)])
       [0..<3]) [0..<2] F"

definition force_row ::
  "mjtNum list \<Rightarrow> (nat \<Rightarrow> nat \<Rightarrow> nat \<Rightarrow> mjtNum) \<Rightarrow> mjtNum list \<Rightarrow> nat \<Rightarrow> nat \<Rightarrow>
   mjtNum list \<Rightarrow> mjtNum list" where
  "force_row elong gradient M t ed1 F = fold (force_cell elong gradient M t ed1) [0..<kNumEdges] F"

text \<open>
  The same host model with one flex whose first vertex is the first body of the instance,
  all rest lengths of flex edges being \<open>1\<close>, and rest data in which the host reports the
  length \<open>1\<close> for every flex edge.
\<close>

definition ex_flex_model :: mjModel where
  "ex_flex_model = ex_model\<lparr>nflex := 1, flex_vertbodyid := (\<lambda>i. 1), flexedge_length0 := (\<lambda>i. 1)\<rparr>"

definition ex_flex_data :: mjData where
  "ex_flex_data = ex_rest_data\<lparr>flexedge_length := (\<lambda>i. 1)\<rparr>"

text \<open>Host data at rest on the vertices of the mesh, with an entry of the world body
  (before the first body of the instance) displaced.\<close>

definition ex_rest_world :: mjData where
  "ex_rest_world = ex_rest_data\<lparr>xpos := (body_pos ex_model)(0 := 7)\<rparr>"

section \<open>The stencil builder deduplicates edges\<close>

lemma stencil_inv_empty: "stencil_inv [] (Map.empty, [], 0)"
  by (simp add: stencil_inv_def)

lemma stencil_inv_distinct: "stencil_inv seen (ei, es, n) \<Longrightarrow> distinct es \<and> set es = set seen \<and> n = length es"
  by (auto simp: stencil_inv_def)

lemma insert_edge_post:
  assumes inv: "stencil_inv seen (ei, es, n)"
    and ins: "insert_edge p (ei, es, n) = (k, (ei', es', n'))"
  shows "stencil_inv (seen @ [p]) (ei', es', n') \<and> k < length es' \<and> es' ! k = p \<and>
         (\<exists>suf. es' = es @ suf)"
proof (cases "ei p")
  case None
  from inv have n: "n = length es" and es: "es = rev (remdups (rev seen))"
    and m: "\<And>q j. ei q = Some j \<longleftrightarrow> (j < length es \<and> es ! j = q)"
    by (auto simp: stencil_inv_def)
  from None m have notin: "p \<notin> set es"
    by (metis in_set_conv_nth option.distinct(1))
  then have notin': "p \<notin> set seen" using es by simp
  from None ins have r: "k = n" "ei' = ei(p \<mapsto> n)" "es' = es @ [p]" "n' = Suc n"
    by (auto simp: insert_edge_def)
  have a: "es' = rev (remdups (rev (seen @ [p])))"
    using r es notin' by simp
  have b: "\<And>q j. ei' q = Some j \<longleftrightarrow> (j < length es' \<and> es' ! j = q)"
  proof -
    fix q j
    show "ei' q = Some j \<longleftrightarrow> (j < length es' \<and> es' ! j = q)"
    proof (cases "q = p")
      case True
      then show ?thesis using r n notin
        by (auto simp: nth_append less_Suc_eq)
    next
      case False
      then show ?thesis using r n m [of q j]
        by (auto simp: nth_append less_Suc_eq)
    qed
  qed
  have len: "n' = length es'" using r n by simp
  have "stencil_inv (seen @ [p]) (ei', es', n')"
    unfolding stencil_inv_def prod.case using len a b by blast
  moreover have "k < length es' \<and> es' ! k = p" using r n by simp
  ultimately show ?thesis using r by blast
next
  case (Some j)
  from inv have n: "n = length es" and es: "es = rev (remdups (rev seen))"
    and m: "\<And>q j. ei q = Some j \<longleftrightarrow> (j < length es \<and> es ! j = q)"
    by (auto simp: stencil_inv_def)
  from Some ins have r: "k = j" "ei' = ei" "es' = es" "n' = n"
    by (auto simp: insert_edge_def)
  from Some m have j: "j < length es" "es ! j = p" by auto
  then have "p \<in> set es" by auto
  then have "p \<in> set seen" using es by simp
  then have a: "es' = rev (remdups (rev (seen @ [p])))" using es r by simp
  have "stencil_inv (seen @ [p]) (ei', es', n')"
    unfolding stencil_inv_def prod.case using a m n r by blast
  then show ?thesis using r j by simp
qed

lemma edge_loop_post:
  "stencil_inv seen (ei, es, n) \<Longrightarrow>
   edge_loop v edgeidx t ls (ei, es, n) = Inr (ks, (ei', es', n')) \<Longrightarrow>
   stencil_inv (seen @ map (edge_pair v) ls) (ei', es', n') \<and> length ks = length ls \<and>
   (\<exists>suf. es' = es @ suf) \<and>
   (\<forall>j<length ls. ks ! j < length es' \<and> es' ! (ks ! j) = edge_pair v (ls ! j))"
proof (induction ls arbitrary: seen ei es n ks)
  case Nil
  then show ?case by simp
next
  case (Cons e ls)
  obtain k ei1 es1 n1 where ins: "insert_edge (edge_pair v e) (ei, es, n) = (k, (ei1, es1, n1))"
    by (metis prod_cases3 surj_pair)
  from Cons.prems(2) ins obtain ks1 where
    rec: "edge_loop v edgeidx t ls (ei1, es1, n1) = Inr (ks1, (ei', es', n'))" and ks: "ks = k # ks1"
    by (auto split: if_splits sum.splits)
  from insert_edge_post [OF Cons.prems(1) ins]
  have inv1: "stencil_inv (seen @ [edge_pair v e]) (ei1, es1, n1)"
    and k: "k < length es1" "es1 ! k = edge_pair v e" and suf1: "\<exists>suf. es1 = es @ suf"
    by auto
  from Cons.IH [OF inv1 rec]
  have inv2: "stencil_inv ((seen @ [edge_pair v e]) @ map (edge_pair v) ls) (ei', es', n')"
    and len: "length ks1 = length ls" and suf2: "\<exists>suf. es' = es1 @ suf"
    and ids: "\<forall>j<length ls. ks1 ! j < length es' \<and> es' ! (ks1 ! j) = edge_pair v (ls ! j)"
    by auto
  from suf2 k have k': "k < length es'" "es' ! k = edge_pair v e"
    by (auto simp: nth_append)
  have "\<forall>j<length (e # ls). ks ! j < length es' \<and> es' ! (ks ! j) = edge_pair v ((e # ls) ! j)"
    using ks k' ids by (auto simp: nth_Cons split: nat.splits)
  moreover have "\<exists>suf. es' = es @ suf" using suf1 suf2 by auto
  ultimately show ?case using inv2 len ks by simp
qed

lemma tet_loop_post:
  "stencil_inv seen (ei, es, n) \<Longrightarrow>
   tet_loop edgeidx t els (ei, es, n) = Inr (els', (ei', es', n')) \<Longrightarrow>
   stencil_inv (seen @ occurrences els) (ei', es', n') \<and> length els' = length els \<and>
   (\<exists>suf. es' = es @ suf) \<and>
   (\<forall>j<length els. vertices (els' ! j) = vertices (els ! j) \<and>
        length (edges_of (els' ! j)) = kNumEdges \<and>
        (\<forall>e<kNumEdges. edges_of (els' ! j) ! e < length es' \<and>
             es' ! (edges_of (els' ! j) ! e) = edge_pair (vertices (els ! j)) e))"
proof (induction els arbitrary: seen ei es n t els')
  case Nil
  then show ?case by (simp add: occurrences_def)
next
  case (Cons el els)
  from Cons.prems(2) obtain ks ei1 es1 n1 els1 where
    inner: "edge_loop (vertices el) edgeidx t [0..<kNumEdges] (ei, es, n) = Inr (ks, (ei1, es1, n1))"
    and rec: "tet_loop edgeidx (Suc t) els (ei1, es1, n1) = Inr (els1, (ei', es', n'))"
    and els': "els' = el\<lparr>edges_of := ks\<rparr> # els1"
    by (auto split: sum.splits)
  from edge_loop_post [OF Cons.prems(1) inner]
  have inv1: "stencil_inv (seen @ map (edge_pair (vertices el)) [0..<kNumEdges]) (ei1, es1, n1)"
    and lks: "length ks = kNumEdges" and suf1: "\<exists>suf. es1 = es @ suf"
    and ids1: "\<forall>j<kNumEdges. ks ! j < length es1 \<and> es1 ! (ks ! j) = edge_pair (vertices el) j"
    by auto
  from Cons.IH [OF inv1 rec]
  have inv2: "stencil_inv ((seen @ map (edge_pair (vertices el)) [0..<kNumEdges]) @ occurrences els)
                (ei', es', n')"
    and len: "length els1 = length els" and suf2: "\<exists>suf. es' = es1 @ suf"
    and ids2: "\<forall>j<length els. vertices (els1 ! j) = vertices (els ! j) \<and>
        length (edges_of (els1 ! j)) = kNumEdges \<and>
        (\<forall>e<kNumEdges. edges_of (els1 ! j) ! e < length es' \<and>
             es' ! (edges_of (els1 ! j) ! e) = edge_pair (vertices (els ! j)) e)"
    by auto
  from suf2 ids1 have ids1': "\<forall>j<kNumEdges. ks ! j < length es' \<and> es' ! (ks ! j) = edge_pair (vertices el) j"
    by (auto simp: nth_append)
  have occ: "(seen @ map (edge_pair (vertices el)) [0..<kNumEdges]) @ occurrences els
             = seen @ occurrences (el # els)"
    by (simp add: occurrences_def)
  have "\<forall>j<length (el # els). vertices (els' ! j) = vertices ((el # els) ! j) \<and>
        length (edges_of (els' ! j)) = kNumEdges \<and>
        (\<forall>e<kNumEdges. edges_of (els' ! j) ! e < length es' \<and>
             es' ! (edges_of (els' ! j) ! e) = edge_pair (vertices ((el # els) ! j)) e)"
  proof (intro allI impI)
    fix j assume "j < length (el # els)"
    then show "vertices (els' ! j) = vertices ((el # els) ! j) \<and>
        length (edges_of (els' ! j)) = kNumEdges \<and>
        (\<forall>e<kNumEdges. edges_of (els' ! j) ! e < length es' \<and>
             es' ! (edges_of (els' ! j) ! e) = edge_pair (vertices ((el # els) ! j)) e)"
      using els' lks ids1' ids2 by (cases j) auto
  qed
  moreover have "\<exists>suf. es' = es @ suf" using suf1 suf2 by auto
  ultimately show ?case using inv2 len els' occ by simp
qed

lemma edge_loop_unchecked:
  "edge_loop v edgeidx t ls st = Inr r \<Longrightarrow> edge_loop v [] t ls st = Inr r"
proof (induction ls arbitrary: st r)
  case Nil
  then show ?case by simp
next
  case (Cons e ls)
  then show ?case
    by (auto split: prod.splits if_splits sum.splits)
qed

lemma edge_loop_total: "\<exists>r. edge_loop v [] t ls st = Inr r"
proof (induction ls arbitrary: st)
  case Nil
  show ?case by (rule exI) (rule edge_loop.simps(1))
next
  case (Cons e ls)
  obtain k st' where ins: "insert_edge (edge_pair v e) st = (k, st')"
    by (cases "insert_edge (edge_pair v e) st")
  obtain ks st'' where "edge_loop v [] t ls st' = Inr (ks, st'')"
    using Cons.IH [of st'] by (metis surj_pair)
  with ins have "edge_loop v [] t (e # ls) st = Inr (k # ks, st'')" by simp
  then show ?case by blast
qed

lemma edge_loop_error:
  "edge_loop v edgeidx t ls st = Inl err \<Longrightarrow> err = AssertionFailed \<and> edgeidx \<noteq> []"
proof (induction ls arbitrary: st)
  case Nil
  then show ?case by simp
next
  case (Cons e ls)
  obtain k st' where ins: "insert_edge (edge_pair v e) st = (k, st')"
    by (cases "insert_edge (edge_pair v e) st")
  show ?case
  proof (cases "edge_loop v edgeidx t ls st'")
    case (Inl x)
    with Cons.IH [of st'] Cons.prems ins show ?thesis
      by (simp split: if_splits)
  next
    case (Inr y)
    with Cons.prems ins show ?thesis
      by (cases y) (simp split: if_splits)
  qed
qed

lemma tet_loop_unchecked:
  "tet_loop edgeidx t els st = Inr r \<Longrightarrow> tet_loop [] t els st = Inr r"
proof (induction els arbitrary: st r t)
  case Nil
  then show ?case by simp
next
  case (Cons el els)
  from Cons.prems obtain ks st1 els1 st2 where
    a: "edge_loop (vertices el) edgeidx t [0..<kNumEdges] st = Inr (ks, st1)"
    and b: "tet_loop edgeidx (Suc t) els st1 = Inr (els1, st2)"
    and r: "r = (el\<lparr>edges_of := ks\<rparr> # els1, st2)"
    by (auto split: sum.splits)
  from edge_loop_unchecked [OF a] Cons.IH [OF b] r show ?case by simp
qed

lemma tet_loop_total: "\<exists>r. tet_loop [] t els st = Inr r"
proof (induction els arbitrary: st t)
  case Nil
  show ?case by (rule exI) (rule tet_loop.simps(1))
next
  case (Cons el els)
  obtain ks st' where a: "edge_loop (vertices el) [] t [0..<kNumEdges] st = Inr (ks, st')"
    using edge_loop_total [of "vertices el" t "[0..<kNumEdges]" st] by (metis surj_pair)
  obtain els1 st'' where b: "tet_loop [] (Suc t) els st' = Inr (els1, st'')"
    using Cons.IH [of "Suc t" st'] by (metis surj_pair)
  from a b have "tet_loop [] t (el # els) st = Inr (el\<lparr>edges_of := ks\<rparr> # els1, st'')" by simp
  then show ?case by blast
qed

lemma tet_loop_error:
  "tet_loop edgeidx t els st = Inl err \<Longrightarrow> err = AssertionFailed \<and> edgeidx \<noteq> []"
proof (induction els arbitrary: st t)
  case Nil
  then show ?case by simp
next
  case (Cons el els)
  show ?case
  proof (cases "edge_loop (vertices el) edgeidx t [0..<kNumEdges] st")
    case (Inl x)
    with Cons.prems have "x = err" by simp
    with Inl edge_loop_error show ?thesis by blast
  next
    case (Inr y)
    obtain ks st' where y: "y = (ks, st')" by (cases y)
    with Inr Cons.prems have "tet_loop edgeidx (Suc t) els st' = Inl err"
      by (auto split: sum.splits)
    then show ?thesis by (rule Cons.IH)
  qed
qed

lemma occurrences_populate: "occurrences (populate simplex (length simplex div kNumVerts)) = all_pairs simplex"
  by (simp add: occurrences_def populate_def all_pairs_def tet_def comp_def)

lemma set_all_pairs:
  "set (all_pairs simplex) =
     {edge_pair (tet simplex t) e | t e. t < length simplex div kNumVerts \<and> e < kNumEdges}"
proof -
  have "set (all_pairs simplex) =
          (\<Union>t\<in>{..<length simplex div kNumVerts}. edge_pair (tet simplex t) ` {..<kNumEdges})"
    by (simp add: all_pairs_def atLeast0LessThan)
  also have "\<dots> = {edge_pair (tet simplex t) e | t e. t < length simplex div kNumVerts \<and> e < kNumEdges}"
    by blast
  finally show ?thesis .
qed

lemma upair_edge_pair: "upair v e = {fst (edge_pair v e), snd (edge_pair v e)}"
  by (auto simp: upair_def edge_pair_def min_def max_def)

lemma edge_pair_ordered: "fst (edge_pair v e) \<le> snd (edge_pair v e)"
  by (simp add: edge_pair_def)

lemma upair_eq_iff: "upair v e = upair v' e' \<longleftrightarrow> edge_pair v e = edge_pair v' e'"
proof
  assume "upair v e = upair v' e'"
  then have "{fst (edge_pair v e), snd (edge_pair v e)} = {fst (edge_pair v' e'), snd (edge_pair v' e')}"
    by (simp add: upair_edge_pair)
  with edge_pair_ordered [of v e] edge_pair_ordered [of v' e']
  have "fst (edge_pair v e) = fst (edge_pair v' e') \<and> snd (edge_pair v e) = snd (edge_pair v' e')"
    by (auto simp: doubleton_eq_iff)
  then show "edge_pair v e = edge_pair v' e'" by (simp add: prod_eq_iff)
next
  assume "edge_pair v e = edge_pair v' e'"
  then show "upair v e = upair v' e'" by (simp add: upair_edge_pair)
qed

lemma CreateStencils_post:
  assumes run: "CreateStencils s0 simplex edgeidx = Inr s"
    and init: "ne s0 = 0" "edges s0 = []"
  shows "nt s = length simplex div kNumVerts"
    and "length (elements s) = nt s"
    and "ne s = length (edges s)"
    and "edges s = rev (remdups (rev (all_pairs simplex)))"
    and "\<forall>t<nt s. vertices (elements s ! t) = tet simplex t \<and>
           length (edges_of (elements s ! t)) = kNumEdges \<and>
           (\<forall>e<kNumEdges. edges_of (elements s ! t) ! e < ne s \<and>
              edges s ! (edges_of (elements s ! t) ! e) = edge_pair (tet simplex t) e)"
proof -
  let ?n = "length simplex div kNumVerts"
  let ?els = "populate simplex ?n"
  from run init obtain els' ei es k where
    loop: "tet_loop edgeidx 0 ?els (Map.empty, [], 0) = Inr (els', (ei, es, k))"
    and s: "s = s0\<lparr>nt := ?n, elements := els', edges := es, ne := k\<rparr>"
    by (auto simp: CreateStencils_def Let_def split: sum.splits)
  from tet_loop_post [OF stencil_inv_empty loop]
  have inv: "stencil_inv (occurrences ?els) (ei, es, k)"
    and len: "length els' = length ?els"
    and ids: "\<forall>j<length ?els. vertices (els' ! j) = vertices (?els ! j) \<and>
        length (edges_of (els' ! j)) = kNumEdges \<and>
        (\<forall>e<kNumEdges. edges_of (els' ! j) ! e < length es \<and>
             es ! (edges_of (els' ! j) ! e) = edge_pair (vertices (?els ! j)) e)"
    by simp_all
  have lp: "length ?els = ?n" by (simp add: populate_def)
  have vp: "\<And>t. t < ?n \<Longrightarrow> vertices (?els ! t) = tet simplex t"
    by (simp add: populate_def tet_def)
  from inv have k: "k = length es" and es: "es = rev (remdups (rev (all_pairs simplex)))"
    by (simp_all add: stencil_inv_def occurrences_populate)
  show "nt s = ?n" using s by simp
  show "length (elements s) = nt s" using s len lp by simp
  show "ne s = length (edges s)" using s k by simp
  show "edges s = rev (remdups (rev (all_pairs simplex)))" using s es by simp
  show "\<forall>t<nt s. vertices (elements s ! t) = tet simplex t \<and>
           length (edges_of (elements s ! t)) = kNumEdges \<and>
           (\<forall>e<kNumEdges. edges_of (elements s ! t) ! e < ne s \<and>
              edges s ! (edges_of (elements s ! t) ! e) = edge_pair (tet simplex t) e)"
    using s ids lp vp k by simp
qed

lemma card_upairs:
  "card {upair (tet simplex t) e | t e. t < n \<and> e < kNumEdges}
   = card {edge_pair (tet simplex t) e | t e. t < n \<and> e < kNumEdges}"
proof -
  let ?P = "{edge_pair (tet simplex t) e | t e. t < n \<and> e < kNumEdges}"
  let ?f = "\<lambda>p::int \<times> int. {fst p, snd p}"
  have img: "{upair (tet simplex t) e | t e. t < n \<and> e < kNumEdges} = ?f ` ?P"
    unfolding upair_edge_pair by blast
  have "inj_on ?f ?P"
  proof (rule inj_onI)
    fix p q assume "p \<in> ?P" "q \<in> ?P" and eq: "?f p = ?f q"
    then obtain t e t' e' where p: "p = edge_pair (tet simplex t) e"
      and q: "q = edge_pair (tet simplex t') e'" by blast
    from eq p q have "upair (tet simplex t) e = upair (tet simplex t') e'"
      by (simp add: upair_edge_pair)
    then show "p = q" using p q by (simp add: upair_eq_iff)
  qed
  then show ?thesis by (simp add: img card_image)
qed

text \<open>
  Claim C1. Let \<^verbatim>\<open>CreateStencils\<close> run on an instance whose edge list is empty and
  whose edge counter is zero, as in the constructor. Then two (tetrahedron, local edge)
  occurrences get the same edge id exactly when their unordered vertex pairs are equal;
  the number of edges is the number of distinct unordered vertex pairs of the
  \<open>length simplex div 4\<close> tetrahedra; the ids assigned are exactly \<open>0, ..., ne - 1\<close>; and
  the edge list holds the distinct normalised pairs in the order of their first
  occurrence, the id of an occurrence being the position of its pair in that list.
\<close>

theorem stencil_edge_ids:
  assumes run: "CreateStencils s0 simplex edgeidx = Inr s"
    and init: "ne s0 = 0 \<and> edges s0 = []"
  shows "(\<forall>t<nt s. \<forall>e<kNumEdges. \<forall>t'<nt s. \<forall>e'<kNumEdges.
            upair (tet simplex t) e = upair (tet simplex t') e' \<longleftrightarrow>
            edges_of (elements s ! t) ! e = edges_of (elements s ! t') ! e') \<and>
         nt s = length simplex div kNumVerts \<and>
         ne s = card {upair (tet simplex t) e | t e. t < nt s \<and> e < kNumEdges} \<and>
         length (edges s) = ne s \<and>
         {edges_of (elements s ! t) ! e | t e. t < nt s \<and> e < kNumEdges} = {0..<ne s} \<and>
         edges s = rev (remdups (rev (all_pairs simplex))) \<and>
         (\<forall>t<nt s. \<forall>e<kNumEdges.
            edges s ! (edges_of (elements s ! t) ! e) = edge_pair (tet simplex t) e)"
proof -
  from init have i1: "ne s0 = 0" and i2: "edges s0 = []" by simp_all
  note post = CreateStencils_post [OF run i1 i2]
  let ?id = "\<lambda>t e. edges_of (elements s ! t) ! e"
  have nt: "nt s = length simplex div kNumVerts" by (rule post(1))
  have ne: "ne s = length (edges s)" by (rule post(3))
  have es: "edges s = rev (remdups (rev (all_pairs simplex)))" by (rule post(4))
  have dist: "distinct (edges s)" by (simp add: es)
  have sete: "set (edges s) = set (all_pairs simplex)" by (simp add: es)
  have idb: "\<And>t e. t < nt s \<Longrightarrow> e < kNumEdges \<Longrightarrow> ?id t e < length (edges s)"
    using post(5) ne by simp
  have idp: "\<And>t e. t < nt s \<Longrightarrow> e < kNumEdges \<Longrightarrow>
               edges s ! (?id t e) = edge_pair (tet simplex t) e"
    using post(5) by simp
  have same: "\<forall>t<nt s. \<forall>e<kNumEdges. \<forall>t'<nt s. \<forall>e'<kNumEdges.
            upair (tet simplex t) e = upair (tet simplex t') e' \<longleftrightarrow> ?id t e = ?id t' e'"
  proof (intro allI impI)
    fix t e t' e' assume b: "t < nt s" "e < kNumEdges" "t' < nt s" "e' < kNumEdges"
    have "upair (tet simplex t) e = upair (tet simplex t') e' \<longleftrightarrow>
          edges s ! (?id t e) = edges s ! (?id t' e')"
      using b by (simp add: upair_eq_iff idp)
    also have "\<dots> \<longleftrightarrow> ?id t e = ?id t' e'"
      using dist idb b by (simp add: nth_eq_iff_index_eq)
    finally show "upair (tet simplex t) e = upair (tet simplex t') e' \<longleftrightarrow> ?id t e = ?id t' e'" .
  qed
  have "ne s = card (set (all_pairs simplex))"
    using ne dist sete by (metis distinct_card)
  also have "\<dots> = card {edge_pair (tet simplex t) e | t e. t < nt s \<and> e < kNumEdges}"
    by (simp add: set_all_pairs nt)
  also have "\<dots> = card {upair (tet simplex t) e | t e. t < nt s \<and> e < kNumEdges}"
    by (rule card_upairs [symmetric])
  finally have cnt: "ne s = card {upair (tet simplex t) e | t e. t < nt s \<and> e < kNumEdges}" .
  have rng: "{?id t e | t e. t < nt s \<and> e < kNumEdges} = {0..<ne s}"
  proof (intro set_eqI iffI)
    fix k assume "k \<in> {?id t e | t e. t < nt s \<and> e < kNumEdges}"
    then show "k \<in> {0..<ne s}" using idb ne by auto
  next
    fix k assume "k \<in> {0..<ne s}"
    then have k: "k < length (edges s)" using ne by simp
    then have "edges s ! k \<in> set (all_pairs simplex)" using sete nth_mem by blast
    then obtain t e where te: "t < nt s" "e < kNumEdges"
      and p: "edges s ! k = edge_pair (tet simplex t) e"
      by (auto simp: set_all_pairs nt)
    then have "edges s ! k = edges s ! (?id t e)" by (simp add: idp)
    then have "k = ?id t e" using dist k idb [OF te] by (simp add: nth_eq_iff_index_eq)
    then show "k \<in> {?id t e | t e. t < nt s \<and> e < kNumEdges}" using te by blast
  qed
  show ?thesis using same nt cnt ne rng es idp by (intro conjI) simp_all
qed

theorem stencil_edge_ids_witness:
  "CreateStencils ex_blank ex_simplex [] = Inr ex_stencil \<and>
   ne ex_blank = 0 \<and> edges ex_blank = [] \<and>
   nt ex_stencil = 2 \<and> ne ex_stencil = 9 \<and>
   card {upair (tet ex_simplex t) e | t e. t < nt ex_stencil \<and> e < kNumEdges} = 9 \<and>
   {edges_of (elements ex_stencil ! t) ! e | t e. t < nt ex_stencil \<and> e < kNumEdges} = {0..<9} \<and>
   upair (tet ex_simplex 0) 1 = upair (tet ex_simplex 1) 0 \<and>
   edges_of (elements ex_stencil ! 0) ! 1 = edges_of (elements ex_stencil ! 1) ! 0"
proof -
  have run: "CreateStencils ex_blank ex_simplex [] = Inr ex_stencil"
    by code_simp
  have init: "ne ex_blank = 0 \<and> edges ex_blank = []"
    by (simp add: ex_blank_def)
  have n: "nt ex_stencil = 2" "ne ex_stencil = 9"
    by (simp_all add: ex_stencil_def)
  note res = stencil_edge_ids [OF run init]
  from res have "card {upair (tet ex_simplex t) e | t e. t < nt ex_stencil \<and> e < kNumEdges} = 9"
    using n by simp
  moreover from res
  have "{edges_of (elements ex_stencil ! t) ! e | t e. t < nt ex_stencil \<and> e < kNumEdges} = {0..<9}"
    using n by simp
  moreover have "edges_of (elements ex_stencil ! 0) ! 1 = edges_of (elements ex_stencil ! 1) ! 0"
    by (simp add: ex_stencil_def)
  moreover from res have "upair (tet ex_simplex 0) 1 = upair (tet ex_simplex 1) 0 \<longleftrightarrow>
      edges_of (elements ex_stencil ! 0) ! 1 = edges_of (elements ex_stencil ! 1) ! 0"
    using n by simp
  ultimately show ?thesis using run init n by simp
qed

section \<open>Truncation of the index list, independence of the supplied edge ids\<close>

lemma tet_loop_vertices:
  "tet_loop edgeidx t els st = Inr (els', st') \<Longrightarrow> map vertices els' = map vertices els"
proof (induction els arbitrary: t st els' st')
  case Nil
  then show ?case by simp
next
  case (Cons el els)
  from Cons.prems obtain ks st1 els1 where
    rec: "tet_loop edgeidx (Suc t) els st1 = Inr (els1, st')"
    and els': "els' = el\<lparr>edges_of := ks\<rparr> # els1"
    by (auto split: sum.splits)
  from Cons.IH [OF rec] els' show ?case by simp
qed

lemma populate_take:
  "populate (take (kNumVerts * n) simplex) n = populate simplex n"
  by (simp add: populate_def)

lemma length_take_div:
  "length (take (kNumVerts * (length (simplex :: int list) div kNumVerts)) simplex) div kNumVerts
   = length simplex div kNumVerts"
  by simp

lemma CreateStencils_take:
  "CreateStencils s0 (take (kNumVerts * (length simplex div kNumVerts)) simplex) edgeidx
   = CreateStencils s0 simplex edgeidx"
  unfolding CreateStencils_def length_take_div Let_def populate_take ..

lemma CreateStencils_unchecked:
  assumes "CreateStencils s0 simplex edgeidx = Inr s"
  shows "CreateStencils s0 simplex [] = Inr s"
proof -
  let ?els = "populate simplex (length simplex div kNumVerts)"
  from assms obtain r where r: "tet_loop edgeidx 0 ?els (Map.empty, edges s0, ne s0) = Inr r"
    by (auto simp: CreateStencils_def Let_def split: sum.splits)
  from tet_loop_unchecked [OF r] r assms show ?thesis
    by (simp add: CreateStencils_def Let_def)
qed

lemma CreateStencils_total: "\<exists>s. CreateStencils s0 simplex [] = Inr s"
proof -
  let ?els = "populate simplex (length simplex div kNumVerts)"
  obtain r where r: "tet_loop [] 0 ?els (Map.empty, edges s0, ne s0) = Inr r"
    using tet_loop_total by blast
  obtain els' ei es k where "r = (els', ei, es, k)" by (metis prod_cases4)
  with r show ?thesis by (simp add: CreateStencils_def Let_def)
qed

lemma CreateStencils_error:
  assumes "CreateStencils s0 simplex edgeidx = Inl err"
  shows "err = AssertionFailed \<and> edgeidx \<noteq> []"
proof -
  let ?els = "populate simplex (length simplex div kNumVerts)"
  from assms have "tet_loop edgeidx 0 ?els (Map.empty, edges s0, ne s0) = Inl err"
    by (auto simp: CreateStencils_def Let_def split: sum.splits)
  then show ?thesis by (rule tet_loop_error)
qed

lemma CreateStencils_shape:
  assumes "CreateStencils s0 simplex edgeidx = Inr s"
  shows "nt s = length simplex div kNumVerts"
    and "map vertices (elements s) = map (tet simplex) [0..<length simplex div kNumVerts]"
proof -
  let ?n = "length simplex div kNumVerts"
  from assms obtain els' st' where
    loop: "tet_loop edgeidx 0 (populate simplex ?n) (Map.empty, edges s0, ne s0) = Inr (els', st')"
    and s: "nt s = ?n" "elements s = els'"
    by (auto simp: CreateStencils_def Let_def split: sum.splits)
  show "nt s = ?n" by (rule s)
  from tet_loop_vertices [OF loop] s
  show "map vertices (elements s) = map (tet simplex) [0..<?n]"
    by (simp add: populate_def tet_def comp_def)
qed

text \<open>
  Claim C10. \<^verbatim>\<open>CreateStencils\<close> builds \<open>length simplex div 4\<close> elements from the
  first \<open>4 * (length simplex div 4)\<close> indices: its result is the result on the list cut
  at that length, so trailing indices are ignored and no element is made from them. It
  cannot fail without an edge-id array, and its only failure is the assertion on
  supplied edge ids.
\<close>

theorem trailing_indices_ignored:
  "CreateStencils s0 simplex edgeidx =
     CreateStencils s0 (take (kNumVerts * (length simplex div kNumVerts)) simplex) edgeidx \<and>
   (\<exists>s. CreateStencils s0 simplex [] = Inr s) \<and>
   (\<forall>err. CreateStencils s0 simplex edgeidx = Inl err \<longrightarrow> err = AssertionFailed \<and> edgeidx \<noteq> []) \<and>
   (\<forall>s. CreateStencils s0 simplex edgeidx = Inr s \<longrightarrow>
        nt s = length simplex div kNumVerts \<and>
        length (elements s) = length simplex div kNumVerts \<and>
        map vertices (elements s) = map (tet simplex) [0..<length simplex div kNumVerts])"
proof (intro conjI allI impI)
  show "CreateStencils s0 simplex edgeidx =
     CreateStencils s0 (take (kNumVerts * (length simplex div kNumVerts)) simplex) edgeidx"
    by (rule CreateStencils_take [symmetric])
  show "\<exists>s. CreateStencils s0 simplex [] = Inr s" by (rule CreateStencils_total)
next
  fix err assume "CreateStencils s0 simplex edgeidx = Inl err"
  then show "err = AssertionFailed" "edgeidx \<noteq> []" using CreateStencils_error by blast+
next
  fix s assume a: "CreateStencils s0 simplex edgeidx = Inr s"
  show "nt s = length simplex div kNumVerts" by (rule CreateStencils_shape(1) [OF a])
  show m: "map vertices (elements s) = map (tet simplex) [0..<length simplex div kNumVerts]"
    by (rule CreateStencils_shape(2) [OF a])
  from arg_cong [OF m, of length] show "length (elements s) = length simplex div kNumVerts"
    by simp
qed

theorem trailing_indices_ignored_witness:
  "length [0, 1, 2, 3, 7, 8 :: int] mod kNumVerts \<noteq> 0 \<and>
   CreateStencils ex_blank [0, 1, 2, 3, 7, 8] [] = CreateStencils ex_blank [0, 1, 2, 3] [] \<and>
   CreateStencils ex_blank [0, 1, 2, 3, 7, 8] [] = Inr ex_single \<and>
   nt ex_single = length [0, 1, 2, 3, 7, 8 :: int] div kNumVerts \<and>
   map vertices (elements ex_single) = [[0, 1, 2, 3]]"
proof -
  have run: "CreateStencils ex_blank [0, 1, 2, 3, 7, 8] [] = Inr ex_single"
    by code_simp
  have tk: "take (kNumVerts * (length [0, 1, 2, 3, 7, 8 :: int] div kNumVerts)) [0, 1, 2, 3, 7, 8 :: int]
            = [0, 1, 2, 3]"
    by simp
  note res = trailing_indices_ignored [of ex_blank "[0, 1, 2, 3, 7, 8]" "[]"]
  from res have "CreateStencils ex_blank [0, 1, 2, 3, 7, 8] [] =
     CreateStencils ex_blank (take (kNumVerts * (length [0, 1, 2, 3, 7, 8 :: int] div kNumVerts))
        [0, 1, 2, 3, 7, 8]) []"
    by (rule conjunct1)
  then have a: "CreateStencils ex_blank [0, 1, 2, 3, 7, 8] [] = CreateStencils ex_blank [0, 1, 2, 3] []"
    by (simp only: tk)
  from res run have b: "nt ex_single = length [0, 1, 2, 3, 7, 8 :: int] div kNumVerts"
    by blast
  have c: "map vertices (elements ex_single) = [[0, 1, 2, 3]]"
    by (simp add: ex_single_def)
  have d: "length [0, 1, 2, 3, 7, 8 :: int] mod kNumVerts \<noteq> 0" by simp
  from a b c d run show ?thesis by blast
qed

lemma metric_loop_error: "metric_loop m inst b nu E els = Inl err \<Longrightarrow> err = BodyWithoutPlugin"
proof (induction els)
  case Nil
  then show ?case by simp
next
  case (Cons el els)
  then show ?case by (simp split: if_splits sum.splits)
qed

lemma Solid_Solid_unchecked:
  "Solid_Solid m inst nu E damp simplex edgeidx b = Inl AssertionFailed \<or>
   Solid_Solid m inst nu E damp simplex edgeidx b = Solid_Solid m inst nu E damp simplex [] b"
proof -
  let ?bodies = "filter (\<lambda>i. body_plugin m (int i) = inst) [1..<nbody m]"
  let ?b = "case ?bodies of [] \<Rightarrow> b | i # _ \<Rightarrow> int i"
  let ?s = "\<lparr>f0 = (case filter (\<lambda>i. flex_vertbodyid m (flex_vertadr m (int i)) = ?b) [0..<nflex m]
                     of [] \<Rightarrow> - 1 | i # _ \<Rightarrow> int i), damping = damp,
               nv = length ?bodies, ne = 0, nt = 0, i0 = ?b, elements = [], edges = [],
               metric = [], reference = [], deformed = [], previous = []\<rparr>"
  show ?thesis
  proof (cases "CreateStencils ?s simplex edgeidx")
    case (Inl err)
    with CreateStencils_error have "err = AssertionFailed" by blast
    with Inl show ?thesis by (simp add: Solid_Solid_def Let_def)
  next
    case (Inr s1)
    from CreateStencils_unchecked [OF Inr] Inr show ?thesis
      by (simp add: Solid_Solid_def Let_def)
  qed
qed

lemma Solid_Solid_errors:
  "Solid_Solid m inst nu E damp simplex [] b \<noteq> Inl AssertionFailed \<and>
   Solid_Solid m inst nu E damp simplex [] b \<noteq> Inl InvalidParameter"
proof -
  let ?bodies = "filter (\<lambda>i. body_plugin m (int i) = inst) [1..<nbody m]"
  let ?b = "case ?bodies of [] \<Rightarrow> b | i # _ \<Rightarrow> int i"
  let ?s = "\<lparr>f0 = (case filter (\<lambda>i. flex_vertbodyid m (flex_vertadr m (int i)) = ?b) [0..<nflex m]
                     of [] \<Rightarrow> - 1 | i # _ \<Rightarrow> int i), damping = damp,
               nv = length ?bodies, ne = 0, nt = 0, i0 = ?b, elements = [], edges = [],
               metric = [], reference = [], deformed = [], previous = []\<rparr>"
  obtain s1 where s1: "CreateStencils ?s simplex [] = Inr s1"
    using CreateStencils_total by blast
  show ?thesis
  proof (cases "metric_loop m inst (i0 s1) nu E (elements s1)")
    case (Inl err)
    with metric_loop_error have "err = BodyWithoutPlugin" by blast
    with Inl s1 show ?thesis by (simp add: Solid_Solid_def Let_def)
  next
    case (Inr M)
    with s1 show ?thesis by (simp add: Solid_Solid_def Let_def)
  qed
qed

section \<open>The constructor on the concrete mesh\<close>

lemma upt_unroll:
  "[0..<kNumEdges] = [0, 1, 2, 3, 4, 5]" "[0..<3] = [0, 1, 2]"
  "[0..<kNumVerts] = [0, 1, 2, 3]" "[0..<2] = [0, 1]"
  by (simp_all add: upt_rec)

lemma ex_rest_positions:
  "ptr_add (body_pos ex_model) 3 = (\<lambda>k. 0)(4 := 1, 6 := 1, 11 := 1, 12 := 1, 13 := 1, 14 := 1)"
  by (rule ext) (simp add: ptr_add_def ex_model_def)

lemma ex_volume:
  "ComputeVolume (ptr_add (body_pos ex_model) 3) [0, 1, 2, 3] = 1 / 6"
  "ComputeVolume (ptr_add (body_pos ex_model) 3) [1, 2, 3, 4] = 1 / 3"
  unfolding ex_rest_positions
  by (simp_all add: ComputeVolume_def vec3_at_def mju_sub3_def mju_cross_def mju_dot3_def)

lemma ex_basis_0:
  "map (\<lambda>e. ComputeBasis (ptr_add (body_pos ex_model) 3) [0, 1, 2, 3]
               (face ! (e2f ! e ! 0)) (face ! (e2f ! e ! 1)) (1 / 6)) [0..<kNumEdges] =
   [[0, - (1 / 2), 0, - (1 / 2), - 1, - (1 / 2), 0, - (1 / 2), 0],
    [0, 1 / 2, 0, 1 / 2, 0, 0, 0, 0, 0],
    [- 1, - (1 / 2), - (1 / 2), - (1 / 2), 0, 0, - (1 / 2), 0, 0],
    [0, 0, 1 / 2, 0, 0, 0, 1 / 2, 0, 0],
    [0, 0, - (1 / 2), 0, 0, - (1 / 2), - (1 / 2), - (1 / 2), - 1],
    [0, 0, 0, 0, 0, 1 / 2, 0, 1 / 2, 0]]"
  unfolding upt_unroll list.map ex_rest_positions
  by (simp add: ComputeBasis_def vec3_at_def mju_sub3_def mju_cross_def face_def e2f_def
      upt_unroll)

lemma ex_basis_1:
  "map (\<lambda>e. ComputeBasis (ptr_add (body_pos ex_model) 3) [1, 2, 3, 4]
               (face ! (e2f ! e ! 0)) (face ! (e2f ! e ! 1)) (1 / 3)) [0..<kNumEdges] =
   [[- (1 / 4), 1 / 4, 0, 1 / 4, - (1 / 4), 0, 0, 0, 1 / 4],
    [- (1 / 4), 0, 1 / 4, 0, 1 / 4, 0, 1 / 4, 0, - (1 / 4)],
    [1 / 4, 0, 0, 0, - (1 / 4), 1 / 4, 0, 1 / 4, - (1 / 4)],
    [- (1 / 4), - (1 / 4), 0, - (1 / 4), - (1 / 4), 0, 0, 0, 1 / 4],
    [- (1 / 4), 0, - (1 / 4), 0, 1 / 4, 0, - (1 / 4), 0, - (1 / 4)],
    [1 / 4, 0, 0, 0, - (1 / 4), - (1 / 4), 0, - (1 / 4), - (1 / 4)]]"
  unfolding upt_unroll list.map ex_rest_positions
  by (simp add: ComputeBasis_def vec3_at_def mju_sub3_def mju_cross_def face_def e2f_def
      upt_unroll)

lemma ex_element_metric_0:
  "element_metric (ptr_add (body_pos ex_model) 3) (3 / 10) 100 [0, 1, 2, 3] =
     take 36 (metric ex_solid)"
  unfolding element_metric_def ex_volume Let_def ex_basis_0
  by (simp add: upt_unroll ex_solid_def)

lemma ex_element_metric_1:
  "element_metric (ptr_add (body_pos ex_model) 3) (3 / 10) 100 [1, 2, 3, 4] =
     drop 36 (metric ex_solid)"
  unfolding element_metric_def ex_volume Let_def ex_basis_1
  by (simp add: upt_unroll ex_solid_def)

lemma ex_stencil_built: "CreateStencils ex_blank ex_simplex [] = Inr ex_stencil"
  by code_simp

lemma ex_metric_built:
  "metric_loop ex_model 0 1 (3 / 10) 100 (elements ex_stencil) = Inr (metric ex_solid)"
proof -
  have chk: "\<not> list_ex (\<lambda>i. body_plugin ex_model (1 + [0, 1, 2, 3] ! i) \<noteq> 0) [0..<kNumVerts]"
    "\<not> list_ex (\<lambda>i. body_plugin ex_model (1 + [1, 2, 3, 4] ! i) \<noteq> 0) [0..<kNumVerts]"
    by (simp_all add: upt_unroll ex_model_def)
  have els: "elements ex_stencil =
     [\<lparr>vertices = [0, 1, 2, 3], edges_of = [0, 1, 2, 3, 4, 5]\<rparr>,
      \<lparr>vertices = [1, 2, 3, 4], edges_of = [1, 3, 5, 6, 7, 8]\<rparr>]"
    by (simp add: ex_stencil_def)
  have three: "(3::int) * 1 = 3" by simp
  have "metric_loop ex_model 0 1 (3 / 10) 100 (elements ex_stencil) =
        Inr (take 36 (metric ex_solid) @ drop 36 (metric ex_solid) @ [])"
    unfolding els metric_loop.simps Stencil3D.simps three
      ex_element_metric_0 ex_element_metric_1
    using chk by simp
  then show ?thesis by simp
qed

lemma ex_reference_built:
  "UpdateSquaredLengths (replicate 9 0) (edges ex_stencil) (ptr_add (body_pos ex_model) 3) =
     [1, 2, 1, 2, 1, 2, 2, 2, 2]"
proof -
  have r: "replicate 9 (0::mjtNum) = [0, 0, 0, 0, 0, 0, 0, 0, 0]"
    by (simp add: numeral_eq_Suc)
  show ?thesis
    unfolding ex_rest_positions r
    by (simp add: UpdateSquaredLengths_def ex_stencil_def squared_length_def vec3_at_def
        mju_sub3_def mju_dot3_def upt_rec)
qed

lemma ex_solid_built_checked:
  assumes st: "CreateStencils ex_blank ex_simplex edgeidx = Inr ex_stencil"
  shows "Solid_Solid ex_model 0 (3 / 10) 100 0 ex_simplex edgeidx 0 = Inr ex_solid"
proof -
  have b: "filter (\<lambda>i. body_plugin ex_model (int i) = 0) [1..<nbody ex_model] = [1, 2, 3, 4, 5]"
    by (simp add: ex_model_def upt_rec)
  have f: "nflex ex_model = 0" by (simp add: ex_model_def)
  have s: "i0 ex_stencil = 1" "ne ex_stencil = 9" by (simp_all add: ex_stencil_def)
  have three: "(3::int) * 1 = 3" by simp
  have fin: "ex_stencil\<lparr>metric := metric ex_solid, reference := [1, 2, 1, 2, 1, 2, 2, 2, 2],
              deformed := replicate 9 0, previous := [1, 2, 1, 2, 1, 2, 2, 2, 2]\<rparr> = ex_solid"
    by (simp add: ex_stencil_def ex_solid_def numeral_eq_Suc)
  show ?thesis
    unfolding Solid_Solid_def b f
    using st [unfolded ex_blank_def] ex_metric_built ex_reference_built fin
    by (simp add: s Let_def numeral_eq_Suc)
qed

lemma ex_solid_built: "Solid_Solid ex_model 0 (3 / 10) 100 0 ex_simplex [] 0 = Inr ex_solid"
  by (rule ex_solid_built_checked [OF ex_stencil_built])

lemma ex_solid_not_built:
  assumes st: "CreateStencils ex_blank ex_simplex edgeidx = Inl err"
  shows "Solid_Solid ex_model 0 (3 / 10) 100 0 ex_simplex edgeidx 0 = Inl err"
proof -
  have b: "filter (\<lambda>i. body_plugin ex_model (int i) = 0) [1..<nbody ex_model] = [1, 2, 3, 4, 5]"
    by (simp add: ex_model_def upt_rec)
  have f: "nflex ex_model = 0" by (simp add: ex_model_def)
  show ?thesis
    unfolding Solid_Solid_def b f
    using st [unfolded ex_blank_def]
    by (simp add: Let_def numeral_eq_Suc)
qed

section \<open>The supplied edge ids\<close>

text \<open>
  Claim C6. The supplied edge ids are only compared with the computed ones: with an array
  the factory either fails on the assertion or returns exactly what it returns without
  the array, and without an array it never fails on the assertion. It reports an invalid
  parameter exactly when \<^verbatim>\<open>CheckAttr\<close> rejects one of the attributes \<^verbatim>\<open>face\<close>,
  \<^verbatim>\<open>edge\<close>, \<^verbatim>\<open>poisson\<close> and \<^verbatim>\<open>young\<close>; when it accepts them, creation without
  an edge-id array succeeds unless a vertex is a body without the plugin instance.
\<close>

theorem edge_ids_only_checked:
  "Solid_Create CheckAttr nu E damp simplex [] m inst b \<noteq> Inl AssertionFailed \<and>
   (Solid_Create CheckAttr nu E damp simplex edgeidx m inst b = Inl AssertionFailed \<or>
    Solid_Create CheckAttr nu E damp simplex edgeidx m inst b =
      Solid_Create CheckAttr nu E damp simplex [] m inst b) \<and>
   (Solid_Create CheckAttr nu E damp simplex edgeidx m inst b = Inl InvalidParameter \<longleftrightarrow>
      \<not> (CheckAttr ''face'' \<and> CheckAttr ''edge'' \<and> CheckAttr ''poisson'' \<and> CheckAttr ''young'')) \<and>
   (CheckAttr ''face'' \<and> CheckAttr ''edge'' \<and> CheckAttr ''poisson'' \<and> CheckAttr ''young'' \<longrightarrow>
      (\<exists>s. Solid_Create CheckAttr nu E damp simplex [] m inst b = Inr s) \<or>
      Solid_Create CheckAttr nu E damp simplex [] m inst b = Inl BodyWithoutPlugin)"
proof -
  have a: "Solid_Solid m inst nu E damp simplex edgeidx b \<noteq> Inl InvalidParameter"
    using Solid_Solid_unchecked [of m inst nu E damp simplex edgeidx b]
      Solid_Solid_errors [of m inst nu E damp simplex b]
    by auto
  have b: "(\<exists>s. Solid_Solid m inst nu E damp simplex [] b = Inr s) \<or>
           Solid_Solid m inst nu E damp simplex [] b = Inl BodyWithoutPlugin"
  proof (cases "Solid_Solid m inst nu E damp simplex [] b")
    case (Inl err)
    with Solid_Solid_errors [of m inst nu E damp simplex b] show ?thesis
      by (cases err) simp_all
  next
    case (Inr s)
    then show ?thesis by simp
  qed
  show ?thesis
    using a b Solid_Solid_unchecked [of m inst nu E damp simplex edgeidx b]
      Solid_Solid_errors [of m inst nu E damp simplex b]
    by (auto simp: Solid_Create_def)
qed

theorem edge_ids_only_checked_witness:
  "Solid_Create (\<lambda>a. True) (3 / 10) 100 0 ex_simplex [] ex_model 0 0 = Inr ex_solid \<and>
   Solid_Create (\<lambda>a. True) (3 / 10) 100 0 ex_simplex [0, 1, 2, 3, 4, 5, 1, 3, 5, 6, 7, 8]
     ex_model 0 0 = Inr ex_solid \<and>
   Solid_Create (\<lambda>a. True) (3 / 10) 100 0 ex_simplex [0, 1, 2, 3, 4, 5, 0, 1, 2, 3, 4, 5]
     ex_model 0 0 = Inl AssertionFailed \<and>
   Solid_Create (\<lambda>a. a \<noteq> ''edge'') (3 / 10) 100 0 ex_simplex [] ex_model 0 0
     = Inl InvalidParameter"
proof -
  have good: "CreateStencils ex_blank ex_simplex [0, 1, 2, 3, 4, 5, 1, 3, 5, 6, 7, 8] = Inr ex_stencil"
    by code_simp
  have bad: "CreateStencils ex_blank ex_simplex [0, 1, 2, 3, 4, 5, 0, 1, 2, 3, 4, 5]
               = Inl AssertionFailed"
    by code_simp
  have a: "Solid_Create (\<lambda>a. True) (3 / 10) 100 0 ex_simplex [] ex_model 0 0 = Inr ex_solid"
    by (simp add: Solid_Create_def ex_solid_built)
  have c: "Solid_Create (\<lambda>a. True) (3 / 10) 100 0 ex_simplex [0, 1, 2, 3, 4, 5, 0, 1, 2, 3, 4, 5]
     ex_model 0 0 = Inl AssertionFailed"
    by (simp add: Solid_Create_def ex_solid_not_built [OF bad])
  have "Solid_Create (\<lambda>a. True) (3 / 10) 100 0 ex_simplex [0, 1, 2, 3, 4, 5, 1, 3, 5, 6, 7, 8]
     ex_model 0 0 \<noteq> Inl AssertionFailed"
    by (simp add: Solid_Create_def ex_solid_built_checked [OF good])
  with edge_ids_only_checked [of "\<lambda>a. True" "3 / 10" 100 0 ex_simplex ex_model 0 0
      "[0, 1, 2, 3, 4, 5, 1, 3, 5, 6, 7, 8]"] a
  have b: "Solid_Create (\<lambda>a. True) (3 / 10) 100 0 ex_simplex [0, 1, 2, 3, 4, 5, 1, 3, 5, 6, 7, 8]
     ex_model 0 0 = Inr ex_solid"
    by simp
  have d: "Solid_Create (\<lambda>a. a \<noteq> ''edge'') (3 / 10) 100 0 ex_simplex [] ex_model 0 0
     = Inl InvalidParameter"
    by (simp add: Solid_Create_def)
  from a b c d show ?thesis by blast
qed

section \<open>What the constructor establishes and what a step changes\<close>

lemma length_fold_update: "length (fold (\<lambda>i l. l[i := f i]) xs l) = length l"
  by (induction xs arbitrary: l) simp_all

lemma nth_fold_update_upt:
  "k < length l \<Longrightarrow> fold (\<lambda>i l. l[i := f i]) [0..<n] l ! k = (if k < n then f k else l ! k)"
proof (induction n)
  case 0
  then show ?case by simp
next
  case (Suc n)
  then show ?case
    by (simp add: nth_list_update length_fold_update less_Suc_eq)
qed

lemma length_UpdateSquaredLengths [simp]: "length (UpdateSquaredLengths len es x) = length len"
  by (simp add: UpdateSquaredLengths_def length_fold_update)

lemma UpdateSquaredLengths_all:
  assumes "length len = length es"
  shows "UpdateSquaredLengths len es x = map (squared_length x) es"
proof (rule nth_equalityI)
  show "length (UpdateSquaredLengths len es x) = length (map (squared_length x) es)"
    using assms by simp
next
  fix k assume "k < length (UpdateSquaredLengths len es x)"
  then have k: "k < length len" by simp
  then show "UpdateSquaredLengths len es x ! k = map (squared_length x) es ! k"
    using assms by (simp add: UpdateSquaredLengths_def nth_fold_update_upt)
qed

lemma length_element_metric [simp]: "length (element_metric x nu E v) = kNumEdges * kNumEdges"
  by (simp add: element_metric_def Let_def length_concat comp_def sum_list_triv)

lemma metric_loop_concat:
  "metric_loop m inst b nu E els = Inr M \<Longrightarrow>
   M = concat (map (\<lambda>el. element_metric (ptr_add (body_pos m) (3 * b)) nu E (vertices el)) els)"
proof (induction els arbitrary: M)
  case Nil
  then show ?case by simp
next
  case (Cons el els)
  from Cons.prems obtain M' where r: "metric_loop m inst b nu E els = Inr M'"
    and M: "M = element_metric (ptr_add (body_pos m) (3 * b)) nu E (vertices el) @ M'"
    by (auto split: if_splits sum.splits)
  from Cons.IH [OF r] M show ?case by simp
qed

lemma length_concat_blocks:
  "length (concat (map (\<lambda>el. element_metric x nu E (vertices el)) els)) = 36 * length els"
  by (induction els) simp_all

lemma CreateStencils_frame:
  assumes "CreateStencils s0 simplex edgeidx = Inr s"
  shows "f0 s = f0 s0" "damping s = damping s0" "i0 s = i0 s0"
  using assms by (auto simp: CreateStencils_def Let_def split: sum.splits)

lemma Solid_Solid_post:
  assumes "Solid_Solid m inst nu E damp simplex edgeidx b = Inr s"
  shows "nt s = length simplex div kNumVerts"
    and "length (elements s) = nt s"
    and "ne s = length (edges s)"
    and "edges s = rev (remdups (rev (all_pairs simplex)))"
    and "\<forall>t<nt s. vertices (elements s ! t) = tet simplex t \<and>
           length (edges_of (elements s ! t)) = kNumEdges \<and>
           (\<forall>e<kNumEdges. edges_of (elements s ! t) ! e < ne s \<and>
              edges s ! (edges_of (elements s ! t) ! e) = edge_pair (tet simplex t) e)"
    and "damping s = damp"
    and "metric s = concat (map (\<lambda>el. element_metric (ptr_add (body_pos m) (3 * i0 s)) nu E
                                   (vertices el)) (elements s))"
    and "reference s = map (squared_length (ptr_add (body_pos m) (3 * i0 s))) (edges s)"
    and "previous s = reference s"
    and "deformed s = replicate (ne s) 0"
proof -
  let ?bodies = "filter (\<lambda>i. body_plugin m (int i) = inst) [1..<nbody m]"
  let ?b = "case ?bodies of [] \<Rightarrow> b | i # _ \<Rightarrow> int i"
  let ?s = "\<lparr>f0 = (case filter (\<lambda>i. flex_vertbodyid m (flex_vertadr m (int i)) = ?b) [0..<nflex m]
                     of [] \<Rightarrow> - 1 | i # _ \<Rightarrow> int i), damping = damp,
               nv = length ?bodies, ne = 0, nt = 0, i0 = ?b, elements = [], edges = [],
               metric = [], reference = [], deformed = [], previous = []\<rparr>"
  from assms obtain s1 M where
    st: "CreateStencils ?s simplex edgeidx = Inr s1"
    and ml: "metric_loop m inst (i0 s1) nu E (elements s1) = Inr M"
    and s: "s = s1\<lparr>metric := M,
                reference := UpdateSquaredLengths (replicate (ne s1) 0) (edges s1)
                               (ptr_add (body_pos m) (3 * i0 s1)),
                deformed := replicate (ne s1) 0,
                previous := UpdateSquaredLengths (replicate (ne s1) 0) (edges s1)
                               (ptr_add (body_pos m) (3 * i0 s1))\<rparr>"
    by (auto simp: Solid_Solid_def Let_def split: sum.splits)
  have i1: "ne ?s = 0" and i2: "edges ?s = []" by simp_all
  note post = CreateStencils_post [OF st i1 i2]
  note frame = CreateStencils_frame [OF st]
  show "nt s = length simplex div kNumVerts" using s post(1) by simp
  show "length (elements s) = nt s" using s post(2) by simp
  show "ne s = length (edges s)" using s post(3) by simp
  show "edges s = rev (remdups (rev (all_pairs simplex)))" using s post(4) by simp
  show "\<forall>t<nt s. vertices (elements s ! t) = tet simplex t \<and>
           length (edges_of (elements s ! t)) = kNumEdges \<and>
           (\<forall>e<kNumEdges. edges_of (elements s ! t) ! e < ne s \<and>
              edges s ! (edges_of (elements s ! t) ! e) = edge_pair (tet simplex t) e)"
    using s post(5) by simp
  show "damping s = damp" using s frame(2) by simp
  show "metric s = concat (map (\<lambda>el. element_metric (ptr_add (body_pos m) (3 * i0 s)) nu E
                                   (vertices el)) (elements s))"
    using s metric_loop_concat [OF ml] by simp
  have len: "length (replicate (ne s1) (0::mjtNum)) = length (edges s1)"
    using post(3) by simp
  show "reference s = map (squared_length (ptr_add (body_pos m) (3 * i0 s))) (edges s)"
    using s UpdateSquaredLengths_all [OF len] by simp
  show "previous s = reference s" using s by simp
  show "deformed s = replicate (ne s) 0" using s by simp
qed

lemma Compute_frame:
  "f0 (snd (Compute m d s)) = f0 s"
  "damping (snd (Compute m d s)) = damping s"
  "nv (snd (Compute m d s)) = nv s"
  "ne (snd (Compute m d s)) = ne s"
  "nt (snd (Compute m d s)) = nt s"
  "i0 (snd (Compute m d s)) = i0 s"
  "elements (snd (Compute m d s)) = elements s"
  "edges (snd (Compute m d s)) = edges s"
  "metric (snd (Compute m d s)) = metric s"
  "reference (snd (Compute m d s)) = reference s"
  by (simp_all add: Compute_def Let_def)

lemma Compute_lengths:
  "deformed (snd (Compute m d s)) =
     (if f0 s < 0 then UpdateSquaredLengths (deformed s) (edges s) (ptr_add (xpos d) (3 * i0 s))
      else deformed s)"
  "previous (snd (Compute m d s)) =
     (if f0 s < 0 then UpdateSquaredLengths (deformed s) (edges s) (ptr_add (xpos d) (3 * i0 s))
      else previous s)"
  by (simp_all add: Compute_def Let_def)

lemma Compute_force:
  "qfrc_passive (fst (Compute m d s)) =
     fold (element_step m d (s\<lparr>deformed := deformed (snd (Compute m d s))\<rparr>)) [0..<nt s]
       (qfrc_passive d)"
  by (simp add: Compute_def Let_def)

lemma reachable_frame:
  assumes "reachable m s0 s"
  shows "f0 s = f0 s0 \<and> damping s = damping s0 \<and> ne s = ne s0 \<and> nt s = nt s0 \<and>
         i0 s = i0 s0 \<and> elements s = elements s0 \<and> edges s = edges s0 \<and>
         metric s = metric s0 \<and> reference s = reference s0"
  using assms
proof (induction rule: reachable.induct)
  case start
  show ?case by simp
next
  case (step s d)
  then show ?case by (simp add: Compute_frame)
qed

lemma reachable_lengths:
  assumes "reachable m s0 s"
    and "length (deformed s0) = n" and "length (previous s0) = n"
  shows "length (deformed s) = n \<and> length (previous s) = n"
  using assms
proof (induction rule: reachable.induct)
  case start
  then show ?case by simp
next
  case (step s d)
  then show ?case by (simp add: Compute_lengths)
qed

lemma reachable_valid:
  assumes built: "Solid_Solid m inst nu E damp simplex edgeidx b = Inr s0"
    and reach: "reachable m s0 s"
  shows "length (edges s) = ne s" and "length (elements s) = nt s"
    and "\<forall>t<nt s. length (edges_of (elements s ! t)) = kNumEdges \<and>
                  (\<forall>e<kNumEdges. edges_of (elements s ! t) ! e < ne s)"
    and "length (reference s) = ne s" and "length (previous s) = ne s"
    and "length (deformed s) = ne s" and "length (metric s) = 36 * nt s"
proof -
  note post = Solid_Solid_post [OF built]
  from reachable_frame [OF reach]
  have fr: "ne s = ne s0" "nt s = nt s0" "elements s = elements s0" "edges s = edges s0"
    "metric s = metric s0" "reference s = reference s0"
    by simp_all
  have l0: "length (deformed s0) = ne s0" using post(10) by simp
  have l1: "length (previous s0) = ne s0" using post(8,9,3) by simp
  from reachable_lengths [OF reach l0 l1]
  have ls: "length (deformed s) = ne s0" "length (previous s) = ne s0" by simp_all
  show "length (edges s) = ne s" using fr post(3) by simp
  show "length (elements s) = nt s" using fr post(2) by simp
  show "\<forall>t<nt s. length (edges_of (elements s ! t)) = kNumEdges \<and>
                  (\<forall>e<kNumEdges. edges_of (elements s ! t) ! e < ne s)"
    using fr post(5) by simp
  show "length (reference s) = ne s" using fr post(8,3) by simp
  show "length (previous s) = ne s" using fr ls by simp
  show "length (deformed s) = ne s" using fr ls by simp
  show "length (metric s) = 36 * nt s"
    using fr post(7,2) by (simp add: length_concat_blocks)
qed

text \<open>
  Claim C9. After \<^verbatim>\<open>CreateStencils\<close>, called as in the constructor, the edge list has
  \<open>ne\<close> entries and every local edge id of every element is below \<open>ne\<close>. In every state
  that an instance built by the constructor reaches by calls of \<^verbatim>\<open>Compute\<close>, this
  still holds, the vectors \<^verbatim>\<open>reference\<close>, \<^verbatim>\<open>previous\<close> and \<^verbatim>\<open>deformed\<close> have
  \<open>ne\<close> entries and \<^verbatim>\<open>metric\<close> has \<open>36 * nt\<close>, so the indices
  \<^verbatim>\<open>elements[t].edges[e]\<close> and \<^verbatim>\<open>36*t + 6*ed1 + ed2\<close> are within these vectors.
\<close>

theorem instance_arrays_in_bounds:
  "(ne s0 = 0 \<and> edges s0 = [] \<and> CreateStencils s0 simplex edgeidx = Inr s1 \<longrightarrow>
      length (edges s1) = ne s1 \<and> length (elements s1) = nt s1 \<and>
      (\<forall>t<nt s1. length (edges_of (elements s1 ! t)) = kNumEdges \<and>
                   (\<forall>e<kNumEdges. edges_of (elements s1 ! t) ! e < ne s1))) \<and>
   (Solid_Solid m inst nu E damp simplex edgeidx b = Inr s2 \<and> reachable m s2 s \<longrightarrow>
      length (edges s) = ne s \<and> length (elements s) = nt s \<and>
      (\<forall>t<nt s. length (edges_of (elements s ! t)) = kNumEdges \<and>
                  (\<forall>e<kNumEdges. edges_of (elements s ! t) ! e < length (reference s) \<and>
                                  edges_of (elements s ! t) ! e < length (previous s) \<and>
                                  edges_of (elements s ! t) ! e < length (deformed s) \<and>
                                  edges_of (elements s ! t) ! e < length (edges s))) \<and>
      length (reference s) = ne s \<and> length (previous s) = ne s \<and>
      length (deformed s) = ne s \<and> length (metric s) = 36 * nt s \<and>
      (\<forall>t<nt s. \<forall>ed1<kNumEdges. \<forall>ed2<kNumEdges.
          kNumEdges * kNumEdges * t + kNumEdges * ed1 + ed2 < length (metric s)))"
proof (intro conjI impI)
  assume a: "ne s0 = 0 \<and> edges s0 = [] \<and> CreateStencils s0 simplex edgeidx = Inr s1"
  then have run: "CreateStencils s0 simplex edgeidx = Inr s1" and i1: "ne s0 = 0"
    and i2: "edges s0 = []" by simp_all
  note post = CreateStencils_post [OF run i1 i2]
  show "length (edges s1) = ne s1" using post(3) by simp
  show "length (elements s1) = nt s1" using post(2) by simp
  show "\<forall>t<nt s1. length (edges_of (elements s1 ! t)) = kNumEdges \<and>
                   (\<forall>e<kNumEdges. edges_of (elements s1 ! t) ! e < ne s1)"
    using post(5) by simp
next
  assume a: "Solid_Solid m inst nu E damp simplex edgeidx b = Inr s2 \<and> reachable m s2 s"
  then have built: "Solid_Solid m inst nu E damp simplex edgeidx b = Inr s2"
    and reach: "reachable m s2 s" by simp_all
  note v = reachable_valid [OF built reach]
  show "length (edges s) = ne s" by (rule v(1))
  show "length (elements s) = nt s" by (rule v(2))
  show "length (reference s) = ne s" by (rule v(4))
  show "length (previous s) = ne s" by (rule v(5))
  show "length (deformed s) = ne s" by (rule v(6))
  show "length (metric s) = 36 * nt s" by (rule v(7))
  show "\<forall>t<nt s. length (edges_of (elements s ! t)) = kNumEdges \<and>
                  (\<forall>e<kNumEdges. edges_of (elements s ! t) ! e < length (reference s) \<and>
                                  edges_of (elements s ! t) ! e < length (previous s) \<and>
                                  edges_of (elements s ! t) ! e < length (deformed s) \<and>
                                  edges_of (elements s ! t) ! e < length (edges s))"
    using v(3) by (simp add: v(1,4,5,6))
  show "\<forall>t<nt s. \<forall>ed1<kNumEdges. \<forall>ed2<kNumEdges.
          kNumEdges * kNumEdges * t + kNumEdges * ed1 + ed2 < length (metric s)"
  proof (intro allI impI)
    fix t ed1 ed2 :: nat
    assume "t < nt s" "ed1 < kNumEdges" "ed2 < kNumEdges"
    then have "36 * t + 6 * ed1 + ed2 < 36 * nt s" by arith
    then show "kNumEdges * kNumEdges * t + kNumEdges * ed1 + ed2 < length (metric s)"
      by (simp add: v(7))
  qed
qed

theorem instance_arrays_in_bounds_witness:
  "ne ex_blank = 0 \<and> edges ex_blank = [] \<and> CreateStencils ex_blank ex_simplex [] = Inr ex_stencil \<and>
   length (edges ex_stencil) = ne ex_stencil \<and>
   Solid_Solid ex_model 0 (3 / 10) 100 0 ex_simplex [] 0 = Inr ex_solid \<and>
   reachable ex_model ex_solid (snd (Compute ex_model ex_data ex_solid)) \<and>
   length (deformed (snd (Compute ex_model ex_data ex_solid))) = 9 \<and>
   length (previous (snd (Compute ex_model ex_data ex_solid))) = 9 \<and>
   length (metric (snd (Compute ex_model ex_data ex_solid))) = 72 \<and>
   edges_of (elements (snd (Compute ex_model ex_data ex_solid)) ! 1) ! 5
     < length (deformed (snd (Compute ex_model ex_data ex_solid)))"
proof -
  let ?s = "snd (Compute ex_model ex_data ex_solid)"
  have i: "ne ex_blank = 0 \<and> edges ex_blank = []" by (simp add: ex_blank_def)
  have r: "reachable ex_model ex_solid ?s"
    by (rule reachable.step [OF reachable.start])
  have n: "ne ?s = 9" "nt ?s = 2"
    by (simp_all add: Compute_frame ex_solid_def)
  note res1 = instance_arrays_in_bounds [of ex_blank ex_simplex "[]" ex_stencil
      ex_model 0 "3 / 10" 100 0 0 ex_solid ?s, THEN conjunct1]
  note res2 = instance_arrays_in_bounds [of ex_blank ex_simplex "[]" ex_stencil
      ex_model 0 "3 / 10" 100 0 0 ex_solid ?s, THEN conjunct2]
  from res1 i ex_stencil_built have a: "length (edges ex_stencil) = ne ex_stencil" by blast
  from res2 ex_solid_built r
  have b: "length (deformed ?s) = ne ?s" "length (previous ?s) = ne ?s"
    "length (metric ?s) = 36 * nt ?s"
    "\<forall>t<nt ?s. length (edges_of (elements ?s ! t)) = kNumEdges \<and>
                  (\<forall>e<kNumEdges. edges_of (elements ?s ! t) ! e < length (reference ?s) \<and>
                                  edges_of (elements ?s ! t) ! e < length (previous ?s) \<and>
                                  edges_of (elements ?s ! t) ! e < length (deformed ?s) \<and>
                                  edges_of (elements ?s ! t) ! e < length (edges ?s))"
    by blast+
  from b(4) n have c: "edges_of (elements ?s ! 1) ! 5 < length (deformed ?s)" by simp
  from i a ex_stencil_built ex_solid_built r b(1,2,3) c n show ?thesis by simp
qed

text \<open>
  Claim C7. A call of \<^verbatim>\<open>Compute\<close> leaves \<^verbatim>\<open>reference\<close> as it is. Without a flex
  (\<open>f0 < 0\<close>) it ends with \<^verbatim>\<open>previous\<close> equal to the new \<^verbatim>\<open>deformed\<close>, which holds the
  squared length of every edge at the current positions when the vector has one entry
  per edge; with a flex it leaves \<^verbatim>\<open>previous\<close> and \<^verbatim>\<open>deformed\<close> as they are.
\<close>

theorem lengths_after_step:
  "reference (snd (Compute m d s)) = reference s \<and>
   (f0 s < 0 \<longrightarrow>
      previous (snd (Compute m d s)) = deformed (snd (Compute m d s)) \<and>
      (length (deformed s) = length (edges s) \<longrightarrow>
         deformed (snd (Compute m d s)) =
           map (squared_length (ptr_add (xpos d) (3 * i0 s))) (edges s))) \<and>
   (\<not> f0 s < 0 \<longrightarrow>
      previous (snd (Compute m d s)) = previous s \<and>
      deformed (snd (Compute m d s)) = deformed s)"
  by (simp add: Compute_frame Compute_lengths UpdateSquaredLengths_all)

lemma ex_moved_positions:
  "ptr_add ((body_pos ex_model)(7 := c)) 3 =
     (\<lambda>k. 0)(4 := c, 6 := 1, 11 := 1, 12 := 1, 13 := 1, 14 := 1)"
  by (rule ext) (simp add: ptr_add_def ex_model_def)

lemma ex_moved_lengths:
  "map (squared_length (ptr_add ((body_pos ex_model)(7 := c)) 3)) (edges ex_solid) =
     [c * c, 1 + c * c, 1, 2, 1, c * c + 1, 2, 1 + (1 - c) * (1 - c) + 1, 2]"
  unfolding ex_moved_positions
  by (simp add: ex_solid_def squared_length_def vec3_at_def mju_sub3_def mju_dot3_def)

theorem lengths_after_step_witness:
  "f0 ex_solid < 0 \<and> length (deformed ex_solid) = length (edges ex_solid) \<and>
   reference (snd (Compute ex_model ex_data ex_solid)) = [1, 2, 1, 2, 1, 2, 2, 2, 2] \<and>
   deformed (snd (Compute ex_model ex_data ex_solid)) = [4, 5, 1, 2, 1, 5, 2, 3, 2] \<and>
   previous (snd (Compute ex_model ex_data ex_solid)) = [4, 5, 1, 2, 1, 5, 2, 3, 2] \<and>
   \<not> f0 (ex_solid\<lparr>f0 := 0\<rparr>) < 0 \<and>
   deformed (snd (Compute ex_model ex_data (ex_solid\<lparr>f0 := 0\<rparr>))) = [0, 0, 0, 0, 0, 0, 0, 0, 0] \<and>
   previous (snd (Compute ex_model ex_data (ex_solid\<lparr>f0 := 0\<rparr>))) = [1, 2, 1, 2, 1, 2, 2, 2, 2]"
proof -
  have f: "f0 ex_solid < 0" "length (deformed ex_solid) = length (edges ex_solid)"
    "i0 ex_solid = 1" "xpos ex_data = (body_pos ex_model)(7 := 2)"
    by (simp_all add: ex_solid_def ex_data_def)
  have three: "(3::int) * 1 = 3" by simp
  have g: "\<not> f0 (ex_solid\<lparr>f0 := 0\<rparr>) < 0" by simp
  note free = lengths_after_step [of ex_model ex_data ex_solid]
  note flex = lengths_after_step [of ex_model ex_data "ex_solid\<lparr>f0 := 0\<rparr>"]
  from free f have d: "deformed (snd (Compute ex_model ex_data ex_solid)) =
      map (squared_length (ptr_add ((body_pos ex_model)(7 := 2)) 3)) (edges ex_solid)"
    by simp
  then have d': "deformed (snd (Compute ex_model ex_data ex_solid)) = [4, 5, 1, 2, 1, 5, 2, 3, 2]"
    by (simp add: ex_moved_lengths)
  from free f have p: "previous (snd (Compute ex_model ex_data ex_solid)) =
      deformed (snd (Compute ex_model ex_data ex_solid))"
    by blast
  from free have r: "reference (snd (Compute ex_model ex_data ex_solid)) = [1, 2, 1, 2, 1, 2, 2, 2, 2]"
    by (simp add: ex_solid_def)
  from flex g have x: "deformed (snd (Compute ex_model ex_data (ex_solid\<lparr>f0 := 0\<rparr>))) = [0, 0, 0, 0, 0, 0, 0, 0, 0]"
    "previous (snd (Compute ex_model ex_data (ex_solid\<lparr>f0 := 0\<rparr>))) = [1, 2, 1, 2, 1, 2, 2, 2, 2]"
    by (simp_all add: ex_solid_def)
  from f g d' p r x show ?thesis by simp
qed

section \<open>The elongation\<close>

lemma Compute_state:
  "f0 s < 0 \<Longrightarrow>
   snd (Compute m d s) =
     s\<lparr>deformed := UpdateSquaredLengths (deformed s) (edges s) (ptr_add (xpos d) (3 * i0 s)),
       previous := UpdateSquaredLengths (deformed s) (edges s) (ptr_add (xpos d) (3 * i0 s))\<rparr>"
  by (simp add: Compute_def Let_def)

lemma elongation_nth:
  "e < kNumEdges \<Longrightarrow>
   elongation m d s t ! e =
     (if f0 s < 0
      then deformed s ! (edges_of (elements s ! t) ! e) - reference s ! (edges_of (elements s ! t) ! e) +
           (deformed s ! (edges_of (elements s ! t) ! e) - previous s ! (edges_of (elements s ! t) ! e)) *
           (damping s / opt_timestep m)
      else flexedge_length d (int (edges_of (elements s ! t) ! e) + flex_edgeadr m (f0 s)) *
           flexedge_length d (int (edges_of (elements s ! t) ! e) + flex_edgeadr m (f0 s)) -
           flexedge_length0 m (int (edges_of (elements s ! t) ! e) + flex_edgeadr m (f0 s)) *
           flexedge_length0 m (int (edges_of (elements s ! t) ! e) + flex_edgeadr m (f0 s)))"
  by (simp add: elongation_def Let_def)

lemma CreateStencils_damping:
  assumes "CreateStencils s0 simplex edgeidx = Inr s"
  shows "CreateStencils (s0\<lparr>damping := x\<rparr>) simplex edgeidx = Inr (s\<lparr>damping := x\<rparr>)"
proof -
  let ?n = "length simplex div kNumVerts"
  from assms obtain els' ei es k where
    loop: "tet_loop edgeidx 0 (populate simplex ?n) (Map.empty, edges s0, ne s0) = Inr (els', ei, es, k)"
    and s: "s = s0\<lparr>nt := ?n, elements := els', edges := es, ne := k\<rparr>"
    by (auto simp: CreateStencils_def Let_def split: sum.splits)
  then show ?thesis by (simp add: CreateStencils_def Let_def)
qed

lemma ex_damped_built:
  "Solid_Solid ex_model 0 (3 / 10) 100 (1 / 1000) ex_simplex [] 0 = Inr ex_damped"
proof -
  have b: "filter (\<lambda>i. body_plugin ex_model (int i) = 0) [1..<nbody ex_model] = [1, 2, 3, 4, 5]"
    by (simp add: ex_model_def upt_rec)
  have f: "nflex ex_model = 0" by (simp add: ex_model_def)
  have s: "i0 ex_stencil = 1" "ne ex_stencil = 9" by (simp_all add: ex_stencil_def)
  have st: "CreateStencils (ex_blank\<lparr>damping := 1 / 1000\<rparr>) ex_simplex []
              = Inr (ex_stencil\<lparr>damping := 1 / 1000\<rparr>)"
    by (rule CreateStencils_damping [OF ex_stencil_built])
  have fin: "ex_stencil\<lparr>damping := 1 / 1000, metric := metric ex_solid,
              reference := [1, 2, 1, 2, 1, 2, 2, 2, 2],
              deformed := replicate 9 0, previous := [1, 2, 1, 2, 1, 2, 2, 2, 2]\<rparr> = ex_damped"
    by (simp add: ex_stencil_def ex_solid_def ex_damped_def numeral_eq_Suc)
  show ?thesis
    unfolding Solid_Solid_def b f
    using st [unfolded ex_blank_def] ex_metric_built ex_reference_built fin
    by (simp add: s Let_def numeral_eq_Suc)
qed

lemma cx_state_reached:
  "(snd (Compute ex_model cx_data1 ex_damped))
     \<lparr>deformed := deformed (snd (Compute ex_model cx_data2 (snd (Compute ex_model cx_data1 ex_damped))))\<rparr>
   = cx_state"
proof -
  have f: "f0 ex_damped < 0" "i0 ex_damped = 1" "edges ex_damped = edges ex_solid"
    "length (deformed ex_damped) = length (edges ex_solid)"
    by (simp_all add: ex_damped_def ex_solid_def)
  have x: "xpos cx_data1 = (body_pos ex_model)(7 := 1 / 2)"
    "xpos cx_data2 = (body_pos ex_model)(7 := 3 / 4)"
    by (simp_all add: cx_data1_def cx_data2_def)
  have u1: "UpdateSquaredLengths (deformed ex_damped) (edges ex_solid)
              (ptr_add ((body_pos ex_model)(7 := 1 / 2)) 3)
            = [1 / 4, 5 / 4, 1, 2, 1, 5 / 4, 2, 9 / 4, 2]"
    using f(4) by (simp add: UpdateSquaredLengths_all ex_moved_lengths)
  have s1: "snd (Compute ex_model cx_data1 ex_damped) =
      ex_damped\<lparr>deformed := [1 / 4, 5 / 4, 1, 2, 1, 5 / 4, 2, 9 / 4, 2],
                previous := [1 / 4, 5 / 4, 1, 2, 1, 5 / 4, 2, 9 / 4, 2]\<rparr>"
    using f by (simp add: Compute_state x u1)
  have u2: "UpdateSquaredLengths [1 / 4, 5 / 4, 1, 2, 1, 5 / 4, 2, 9 / 4, 2] (edges ex_solid)
              (ptr_add ((body_pos ex_model)(7 := 3 / 4)) 3)
            = [9 / 16, 25 / 16, 1, 2, 1, 25 / 16, 2, 33 / 16, 2]"
  proof -
    have l: "length [1 / 4, 5 / 4, 1, 2, 1, 5 / 4, 2, 9 / 4, 2 :: mjtNum] = length (edges ex_solid)"
      by (simp add: ex_solid_def)
    show ?thesis unfolding UpdateSquaredLengths_all [OF l] by (simp add: ex_moved_lengths)
  qed
  show ?thesis
    unfolding s1 using f by (simp add: Compute_lengths x u2 cx_state_def)
qed

text \<open>
  Claim C8, as stated, fails: the damping term of a growing edge is positive, so it
  lowers the magnitude of the elongation of an edge that is shorter than at rest. On the
  concrete mesh with damping \<open>1/1000\<close>, after a step with the second vertex at
  \<open>(0,1/2,0)\<close> and during a step with that vertex at \<open>(0,3/4,0)\<close>, edge 0 has reference
  \<open>1\<close>, previous \<open>1/4\<close> and deformed \<open>9/16\<close>; the elongation is \<open>-9/32\<close>, of
  smaller magnitude than the undamped \<open>-7/16\<close>.
\<close>

theorem damping_magnitude_counterexample:
  "Solid_Solid ex_model 0 (3 / 10) 100 (1 / 1000) ex_simplex [] 0 = Inr ex_damped \<and>
   (snd (Compute ex_model cx_data1 ex_damped))
     \<lparr>deformed := deformed (snd (Compute ex_model cx_data2 (snd (Compute ex_model cx_data1 ex_damped))))\<rparr>
     = cx_state \<and>
   f0 cx_state < 0 \<and> 0 < damping cx_state \<and> 0 < opt_timestep ex_model \<and>
   previous cx_state ! (edges_of (elements cx_state ! 0) ! 0)
     < deformed cx_state ! (edges_of (elements cx_state ! 0) ! 0) \<and>
   \<not> \<bar>deformed cx_state ! (edges_of (elements cx_state ! 0) ! 0) -
       reference cx_state ! (edges_of (elements cx_state ! 0) ! 0)\<bar>
     < \<bar>elongation ex_model cx_data2 cx_state 0 ! 0\<bar>"
proof -
  have e: "elongation ex_model cx_data2 cx_state 0 ! 0 = - (9 / 32)"
    by (simp add: elongation_nth cx_state_def ex_damped_def ex_solid_def ex_model_def)
  have r: "f0 cx_state < 0" "0 < damping cx_state" "0 < opt_timestep ex_model"
    "edges_of (elements cx_state ! 0) ! 0 = 0"
    "previous cx_state ! 0 = 1 / 4" "deformed cx_state ! 0 = 9 / 16" "reference cx_state ! 0 = 1"
    by (simp_all add: cx_state_def ex_damped_def ex_solid_def ex_model_def)
  show ?thesis
    unfolding e r using ex_damped_built cx_state_reached r(1,2,3) by simp
qed

text \<open>
  Claim C8, amended. Without a flex, with positive damping and time step, the damping
  term of an edge whose squared length is growing makes the elongation strictly greater
  than \<open>deformed - reference\<close>; its magnitude is strictly greater when the edge is not
  shorter than at rest.
\<close>

theorem damping_raises_elongation:
  assumes "e < kNumEdges" and "f0 s < 0" and "0 < damping s" and "0 < opt_timestep m"
    and "previous s ! (edges_of (elements s ! t) ! e) < deformed s ! (edges_of (elements s ! t) ! e)"
  shows "deformed s ! (edges_of (elements s ! t) ! e) - reference s ! (edges_of (elements s ! t) ! e)
           < elongation m d s t ! e \<and>
         (reference s ! (edges_of (elements s ! t) ! e) \<le> deformed s ! (edges_of (elements s ! t) ! e) \<longrightarrow>
            \<bar>deformed s ! (edges_of (elements s ! t) ! e) - reference s ! (edges_of (elements s ! t) ! e)\<bar>
              < \<bar>elongation m d s t ! e\<bar>)"
proof -
  let ?i = "edges_of (elements s ! t) ! e"
  have kD: "0 < damping s / opt_timestep m" using assms(3,4) by simp
  have "0 < deformed s ! ?i - previous s ! ?i" using assms(5) by simp
  then have "0 < (deformed s ! ?i - previous s ! ?i) * (damping s / opt_timestep m)"
    using kD by (rule mult_pos_pos)
  moreover have "elongation m d s t ! e =
      deformed s ! ?i - reference s ! ?i + (deformed s ! ?i - previous s ! ?i) * (damping s / opt_timestep m)"
    using assms(1,2) by (simp add: elongation_nth)
  ultimately show ?thesis by simp
qed

theorem damping_raises_elongation_witness:
  "(0::nat) < kNumEdges \<and> f0 (ex_damped\<lparr>deformed := [4, 5, 1, 2, 1, 5, 2, 3, 2]\<rparr>) < 0 \<and>
   0 < damping (ex_damped\<lparr>deformed := [4, 5, 1, 2, 1, 5, 2, 3, 2]\<rparr>) \<and> 0 < opt_timestep ex_model \<and>
   previous (ex_damped\<lparr>deformed := [4, 5, 1, 2, 1, 5, 2, 3, 2]\<rparr>) ! 0
     < deformed (ex_damped\<lparr>deformed := [4, 5, 1, 2, 1, 5, 2, 3, 2]\<rparr>) ! 0 \<and>
   reference (ex_damped\<lparr>deformed := [4, 5, 1, 2, 1, 5, 2, 3, 2]\<rparr>) ! 0
     \<le> deformed (ex_damped\<lparr>deformed := [4, 5, 1, 2, 1, 5, 2, 3, 2]\<rparr>) ! 0 \<and>
   (3::real) < elongation ex_model ex_data (ex_damped\<lparr>deformed := [4, 5, 1, 2, 1, 5, 2, 3, 2]\<rparr>) 0 ! 0 \<and>
   \<bar>3::real\<bar> < \<bar>elongation ex_model ex_data (ex_damped\<lparr>deformed := [4, 5, 1, 2, 1, 5, 2, 3, 2]\<rparr>) 0 ! 0\<bar>"
proof -
  let ?s = "ex_damped\<lparr>deformed := [4, 5, 1, 2, 1, 5, 2, 3, 2]\<rparr>"
  have r: "f0 ?s < 0" "0 < damping ?s" "0 < opt_timestep ex_model"
    "edges_of (elements ?s ! 0) ! 0 = 0"
    "previous ?s ! 0 = 1" "deformed ?s ! 0 = 4" "reference ?s ! 0 = 1"
    by (simp_all add: ex_damped_def ex_solid_def ex_model_def)
  have h: "previous ?s ! (edges_of (elements ?s ! 0) ! 0) < deformed ?s ! (edges_of (elements ?s ! 0) ! 0)"
    unfolding r by simp
  have z: "(0::nat) < kNumEdges" by simp
  from damping_raises_elongation [OF z r(1) r(2) r(3) h, of ex_data]
  have "(3::real) < elongation ex_model ex_data ?s 0 ! 0 \<and>
        \<bar>3::real\<bar> < \<bar>elongation ex_model ex_data ?s 0 ! 0\<bar>"
    unfolding r by simp
  then show ?thesis using r by simp
qed

section \<open>The metric tensor\<close>

lemma nth_concat_blocks:
  "(\<forall>xs\<in>set xss. length xs = n) \<Longrightarrow> i < length xss \<Longrightarrow> j < n \<Longrightarrow>
   concat xss ! (n * i + j) = xss ! i ! j"
proof (induction xss arbitrary: i)
  case Nil
  then show ?case by simp
next
  case (Cons xs xss)
  show ?case
  proof (cases i)
    case 0
    with Cons.prems show ?thesis by (simp add: nth_append)
  next
    case (Suc i')
    with Cons.prems have "concat xss ! (n * i' + j) = xss ! i' ! j"
      by (intro Cons.IH) simp_all
    moreover have "n * i + j = length xs + (n * i' + j)"
      using Suc Cons.prems(1) by simp
    ultimately show ?thesis using Suc by (simp only: concat.simps nth_append_length_plus nth_Cons_Suc)
  qed
qed

lemma nth_table:
  assumes "a < m" and "b < n"
  shows "concat (map (\<lambda>i. map (f i) [0..<n]) [0..<m]) ! (n * a + b) = f a b"
proof -
  have "concat (map (\<lambda>i. map (f i) [0..<n]) [0..<m]) ! (n * a + b)
        = map (\<lambda>i. map (f i) [0..<n]) [0..<m] ! a ! b"
    using assms by (intro nth_concat_blocks) auto
  then show ?thesis using assms by simp
qed

lemma element_metric_nth:
  assumes "ed1 < kNumEdges" and "ed2 < kNumEdges"
  shows "element_metric x nu E v ! (kNumEdges * ed1 + ed2) =
     E / (2 * (1 + nu)) * ComputeVolume x v *
       (\<Sum>i\<leftarrow>[0..<3]. \<Sum>j\<leftarrow>[0..<3].
          ComputeBasis x v (face ! (e2f ! ed1 ! 0)) (face ! (e2f ! ed1 ! 1)) (ComputeVolume x v) ! (3 * i + j) *
          ComputeBasis x v (face ! (e2f ! ed2 ! 0)) (face ! (e2f ! ed2 ! 1)) (ComputeVolume x v) ! (3 * j + i)) +
     E * nu / ((1 + nu) * (1 - 2 * nu)) * ComputeVolume x v *
       (\<Sum>i\<leftarrow>[0..<3]. ComputeBasis x v (face ! (e2f ! ed2 ! 0)) (face ! (e2f ! ed2 ! 1)) (ComputeVolume x v) ! (4 * i)) *
       (\<Sum>i\<leftarrow>[0..<3]. ComputeBasis x v (face ! (e2f ! ed1 ! 0)) (face ! (e2f ! ed1 ! 1)) (ComputeVolume x v) ! (4 * i))"
  unfolding element_metric_def Let_def
  using assms by (simp only: nth_table) (simp add: nth_table)

lemma double_contraction_commute:
  fixes f g :: "nat \<Rightarrow> mjtNum"
  shows "(\<Sum>i\<leftarrow>[0..<3]. \<Sum>j\<leftarrow>[0..<3]. f (3 * i + j) * g (3 * j + i)) =
         (\<Sum>i\<leftarrow>[0..<3]. \<Sum>j\<leftarrow>[0..<3]. g (3 * i + j) * f (3 * j + i))"
  unfolding interv_sum_list_conv_sum_set_nat
  by (subst sum.swap) (simp add: mult.commute)

lemma element_metric_symmetric:
  assumes "ed1 < kNumEdges" and "ed2 < kNumEdges"
  shows "element_metric x nu E v ! (kNumEdges * ed1 + ed2) =
         element_metric x nu E v ! (kNumEdges * ed2 + ed1)"
proof -
  let ?B1 = "\<lambda>k. ComputeBasis x v (face ! (e2f ! ed1 ! 0)) (face ! (e2f ! ed1 ! 1)) (ComputeVolume x v) ! k"
  let ?B2 = "\<lambda>k. ComputeBasis x v (face ! (e2f ! ed2 ! 0)) (face ! (e2f ! ed2 ! 1)) (ComputeVolume x v) ! k"
  have tt: "(\<Sum>i\<leftarrow>[0..<3]. \<Sum>j\<leftarrow>[0..<3]. ?B1 (3 * i + j) * ?B2 (3 * j + i)) =
            (\<Sum>i\<leftarrow>[0..<3]. \<Sum>j\<leftarrow>[0..<3]. ?B2 (3 * i + j) * ?B1 (3 * j + i))"
    by (rule double_contraction_commute)
  show ?thesis
    unfolding element_metric_nth [OF assms] element_metric_nth [OF assms(2) assms(1)] tt
    by (simp add: mult.commute mult.left_commute)
qed

lemma metric_block_nth:
  assumes m: "metric s = concat (map (\<lambda>el. element_metric x nu E (vertices el)) (elements s))"
    and t: "t < length (elements s)" and k: "k < kNumEdges * kNumEdges"
  shows "metric s ! (kNumEdges * kNumEdges * t + k) = element_metric x nu E (vertices (elements s ! t)) ! k"
proof -
  have "concat (map (\<lambda>el. element_metric x nu E (vertices el)) (elements s)) ! (36 * t + k)
        = map (\<lambda>el. element_metric x nu E (vertices el)) (elements s) ! t ! k"
    using t k by (intro nth_concat_blocks) auto
  then show ?thesis using m t by simp
qed

text \<open>
  Claim C4. In every state of a constructed instance, the block of the metric that
  belongs to tetrahedron \<open>t\<close> is symmetric: the entries at \<open>36*t + 6*a + b\<close> and
  \<open>36*t + 6*b + a\<close> are equal, for all positions and material parameters (in exact
  arithmetic).
\<close>

theorem metric_symmetric:
  assumes "Solid_Solid m inst nu E damp simplex edgeidx b = Inr s0" and "reachable m s0 s"
    and "t < nt s" and "ed1 < kNumEdges" and "ed2 < kNumEdges"
  shows "metric s ! (kNumEdges * kNumEdges * t + kNumEdges * ed1 + ed2) =
         metric s ! (kNumEdges * kNumEdges * t + kNumEdges * ed2 + ed1)"
proof -
  note post = Solid_Solid_post [OF assms(1)]
  from reachable_frame [OF assms(2)]
  have fr: "nt s = nt s0" "elements s = elements s0" "metric s = metric s0" "i0 s = i0 s0"
    by simp_all
  let ?x = "ptr_add (body_pos m) (3 * i0 s)"
  have m: "metric s = concat (map (\<lambda>el. element_metric ?x nu E (vertices el)) (elements s))"
    using post(7) fr by simp
  have t: "t < length (elements s)" using assms(3) post(2) fr by simp
  have k1: "kNumEdges * ed1 + ed2 < kNumEdges * kNumEdges"
    and k2: "kNumEdges * ed2 + ed1 < kNumEdges * kNumEdges"
    using assms(4,5) by simp_all
  have "metric s ! (kNumEdges * kNumEdges * t + (kNumEdges * ed1 + ed2)) =
        element_metric ?x nu E (vertices (elements s ! t)) ! (kNumEdges * ed1 + ed2)"
    by (rule metric_block_nth [OF m t k1])
  also have "\<dots> = element_metric ?x nu E (vertices (elements s ! t)) ! (kNumEdges * ed2 + ed1)"
    by (rule element_metric_symmetric [OF assms(4,5)])
  also have "\<dots> = metric s ! (kNumEdges * kNumEdges * t + (kNumEdges * ed2 + ed1))"
    by (rule metric_block_nth [OF m t k2, symmetric])
  finally show ?thesis by (simp only: add.assoc)
qed

theorem metric_symmetric_witness:
  "Solid_Solid ex_model 0 (3 / 10) 100 0 ex_simplex [] 0 = Inr ex_solid \<and>
   reachable ex_model ex_solid (snd (Compute ex_model ex_data ex_solid)) \<and>
   (1::nat) < nt (snd (Compute ex_model ex_data ex_solid)) \<and> (0::nat) < kNumEdges \<and> (3::nat) < kNumEdges \<and>
   metric (snd (Compute ex_model ex_data ex_solid)) ! (kNumEdges * kNumEdges * 1 + kNumEdges * 0 + 3) = 625 / 312 \<and>
   metric (snd (Compute ex_model ex_data ex_solid)) ! (kNumEdges * kNumEdges * 1 + kNumEdges * 3 + 0) = 625 / 312"
proof -
  let ?s = "snd (Compute ex_model ex_data ex_solid)"
  have r: "reachable ex_model ex_solid ?s"
    by (rule reachable.step [OF reachable.start])
  have n: "1 < nt ?s" by (simp add: Compute_frame ex_solid_def)
  have z: "(0::nat) < kNumEdges" "(3::nat) < kNumEdges" by simp_all
  have v: "metric ?s ! (kNumEdges * kNumEdges * 1 + kNumEdges * 0 + 3) = 625 / 312"
    by (simp add: Compute_frame ex_solid_def)
  from metric_symmetric [OF ex_solid_built r n z] v
  have "metric ?s ! (kNumEdges * kNumEdges * 1 + kNumEdges * 3 + 0) = 625 / 312"
    by simp
  with ex_solid_built r n z v show ?thesis by blast
qed

section \<open>The force is linear in the metric and vanishes with the elongation\<close>

lemma fold_invariant:
  assumes "P a" and "\<And>x a. x \<in> set xs \<Longrightarrow> P a \<Longrightarrow> P (f x a)"
  shows "P (fold f xs a)"
  using assms by (induction xs arbitrary: a) simp_all

lemma fold_related:
  assumes "R a b" and "\<And>x a b. x \<in> set xs \<Longrightarrow> R a b \<Longrightarrow> R (f x a) (g x b)"
  shows "R (fold f xs a) (fold g xs b)"
  using assms by (induction xs arbitrary: a b) simp_all

lemma edge_entry_bound:
  assumes "e < kNumEdges" and "i < 2"
  shows "edge ! e ! i < kNumVerts"
proof -
  from assms have "e = 0 \<or> e = 1 \<or> e = 2 \<or> e = 3 \<or> e = 4 \<or> e = 5" and "i = 0 \<or> i = 1"
    by arith+
  then show ?thesis by (auto simp: edge_def)
qed

lemma force_index_bound:
  assumes "e < kNumEdges" and "i < 2" and "x < 3"
  shows "3 * (edge ! e ! i) + x < kNumVerts * 3"
  using edge_entry_bound [OF assms(1,2)] assms(3) by arith

lemma length_local_force: "length (local_force el g M t) = kNumVerts * 3"
  unfolding local_force_def
  by (intro fold_invariant [where P = "\<lambda>F. length F = kNumVerts * 3"]) simp_all

lemma local_force_zero:
  assumes "\<forall>e<kNumEdges. el ! e = 0"
  shows "local_force el g M t = replicate (kNumVerts * 3) 0"
  unfolding local_force_def
  by (intro fold_invariant [where P = "\<lambda>F. F = replicate (kNumVerts * 3) 0"])
    (simp_all add: assms)

lemma local_force_scale:
  assumes "\<forall>ed1<kNumEdges. \<forall>ed2<kNumEdges.
             kNumEdges * kNumEdges * t + kNumEdges * ed1 + ed2 < length M"
  shows "local_force el g (map ((*) c) M) t = map ((*) c) (local_force el g M t)"
proof -
  define R where "R = (\<lambda>F1 F2 :: mjtNum list. length F1 = kNumVerts * 3 \<and> F2 = map ((*) c) F1)"
  have step: "R (F1[3 * (edge ! ed2 ! i) + x :=
                     F1 ! (3 * (edge ! ed2 ! i) + x) + el ! ed1 * g ed2 i x *
                     M ! (kNumEdges * kNumEdges * t + kNumEdges * ed1 + ed2)])
                (F2[3 * (edge ! ed2 ! i) + x :=
                     F2 ! (3 * (edge ! ed2 ! i) + x) + el ! ed1 * g ed2 i x *
                     map ((*) c) M ! (kNumEdges * kNumEdges * t + kNumEdges * ed1 + ed2)])"
    if "R F1 F2" and "ed1 \<in> set [0..<kNumEdges]" and "ed2 \<in> set [0..<kNumEdges]"
      and "i \<in> set [0..<2]" and "x \<in> set [0..<3]" for F1 F2 ed1 ed2 i x
  proof -
    from that have b: "ed1 < kNumEdges" "ed2 < kNumEdges" "i < 2" "x < 3" by simp_all
    have k: "3 * (edge ! ed2 ! i) + x < length F1"
      using force_index_bound [OF b(2,3,4)] that(1) by (simp add: R_def)
    have idx: "kNumEdges * kNumEdges * t + kNumEdges * ed1 + ed2 < length M"
      using assms b by simp
    show ?thesis
      using that(1) k idx by (simp add: R_def map_update algebra_simps)
  qed
  have "R (local_force el g M t) (local_force el g (map ((*) c) M) t)"
    unfolding local_force_def
    by (intro fold_related [where R = R] step) (simp_all add: R_def)
  then show ?thesis by (simp add: R_def)
qed

lemma insert_force_zero: "insert_force q adr v (replicate (kNumVerts * 3) 0) = q"
proof -
  have n: "replicate (kNumVerts * 3) (0::mjtNum) ! (3 * i + x) = 0"
    if "i \<in> set [0..<kNumVerts]" and "x \<in> set [0..<3]" for i x
    using that by simp
  show ?thesis
    unfolding insert_force_def
    by (intro fold_invariant [where P = "\<lambda>q'. q' = q"]) (simp_all only: n, simp_all)
qed

lemma insert_force_scale:
  assumes "length F = kNumVerts * 3"
    and "\<forall>k. q2 k - q0 k = c * (q1 k - q0 k)"
  shows "\<forall>k. insert_force q2 adr v (map ((*) c) F) k - q0 k =
             c * (insert_force q1 adr v F k - q0 k)"
proof -
  define R where "R = (\<lambda>p1 p2 :: int \<Rightarrow> mjtNum. \<forall>k. p2 k - q0 k = c * (p1 k - q0 k))"
  have step: "R (p1(adr + 3 * v ! i + int x := p1 (adr + 3 * v ! i + int x) - F ! (3 * i + x)))
                (p2(adr + 3 * v ! i + int x :=
                      p2 (adr + 3 * v ! i + int x) - map ((*) c) F ! (3 * i + x)))"
    if "R p1 p2" and "i \<in> set [0..<kNumVerts]" and "x \<in> set [0..<3]" for p1 p2 i x
  proof -
    from that have "3 * i + x < length F" using assms(1) by simp
    then have n: "map ((*) c) F ! (3 * i + x) = c * F ! (3 * i + x)" by simp
    show ?thesis
      unfolding R_def n
    proof
      fix k
      from that(1) have "p2 k - q0 k = c * (p1 k - q0 k)"
        and "p2 (adr + 3 * v ! i + int x) - q0 (adr + 3 * v ! i + int x) =
             c * (p1 (adr + 3 * v ! i + int x) - q0 (adr + 3 * v ! i + int x))"
        by (simp_all add: R_def)
      then show "(p2(adr + 3 * v ! i + int x := p2 (adr + 3 * v ! i + int x) - c * F ! (3 * i + x))) k
                   - q0 k =
                 c * ((p1(adr + 3 * v ! i + int x := p1 (adr + 3 * v ! i + int x) - F ! (3 * i + x))) k
                   - q0 k)"
        by (simp add: algebra_simps)
    qed
  qed
  have "R (insert_force q1 adr v F) (insert_force q2 adr v (map ((*) c) F))"
    unfolding insert_force_def
    by (intro fold_related [where R = R] step) (simp_all add: R_def assms(2))
  then show ?thesis by (simp add: R_def)
qed

lemma elongation_metric [simp]:
  "elongation m d (s\<lparr>metric := M\<rparr>) t = elongation m d s t"
  by (simp add: elongation_def)

lemma Compute_scale:
  assumes len: "length (metric s) = 36 * nt s"
  shows "\<forall>k. qfrc_passive (fst (Compute m d (s\<lparr>metric := map ((*) c) (metric s)\<rparr>))) k - qfrc_passive d k =
             c * (qfrc_passive (fst (Compute m d s)) k - qfrc_passive d k)"
proof -
  define R where
    "R = (\<lambda>p1 p2 :: int \<Rightarrow> mjtNum. \<forall>k. p2 k - qfrc_passive d k = c * (p1 k - qfrc_passive d k))"
  let ?s1 = "s\<lparr>deformed := deformed (snd (Compute m d s))\<rparr>"
  let ?s2 = "?s1\<lparr>metric := map ((*) c) (metric s)\<rparr>"
  have s2: "(s\<lparr>metric := map ((*) c) (metric s)\<rparr>)
              \<lparr>deformed := deformed (snd (Compute m d (s\<lparr>metric := map ((*) c) (metric s)\<rparr>)))\<rparr> = ?s2"
    by (simp add: Compute_lengths)
  have step: "R (element_step m d ?s1 t p1) (element_step m d ?s2 t p2)"
    if "R p1 p2" and "t \<in> set [0..<nt s]" for p1 p2 t
  proof -
    from that(2) have t: "t < nt s" by simp
    have idx: "\<forall>ed1<kNumEdges. \<forall>ed2<kNumEdges.
                 kNumEdges * kNumEdges * t + kNumEdges * ed1 + ed2 < length (metric s)"
    proof (intro allI impI)
      fix ed1 ed2 :: nat assume "ed1 < kNumEdges" "ed2 < kNumEdges"
      with t have "36 * t + 6 * ed1 + ed2 < 36 * nt s" by arith
      then show "kNumEdges * kNumEdges * t + kNumEdges * ed1 + ed2 < length (metric s)"
        using len by simp
    qed
    show ?thesis
      using insert_force_scale [OF length_local_force that(1) [unfolded R_def]]
      by (simp add: element_step_def Let_def local_force_scale [OF idx] R_def)
  qed
  have "R (fold (element_step m d ?s1) [0..<nt s] (qfrc_passive d))
          (fold (element_step m d ?s2) [0..<nt s] (qfrc_passive d))"
    by (intro fold_related [where R = R] step) (simp_all add: R_def)
  then show ?thesis
    unfolding Compute_force s2 by (simp add: R_def)
qed

section \<open>A step on the concrete mesh\<close>

lemma local_force_rows:
  "local_force elong gradient M t =
     fold (force_row elong gradient M t) [0..<kNumEdges] (replicate (kNumVerts * 3) 0)"
proof -
  have "force_row elong gradient M t = (\<lambda>ed1. fold (\<lambda>ed2. fold (\<lambda>i. fold (\<lambda>x force.
         force[3 * (edge ! ed2 ! i) + x :=
                 force ! (3 * (edge ! ed2 ! i) + x) +
                 elong ! ed1 * gradient ed2 i x *
                 M ! (kNumEdges * kNumEdges * t + kNumEdges * ed1 + ed2)])
       [0..<3]) [0..<2]) [0..<kNumEdges])"
    by (intro ext) (simp add: force_row_def force_cell_def [abs_def])
  then show ?thesis by (simp only: local_force_def)
qed

lemma ex_deformed_moved:
  "deformed (snd (Compute ex_model ex_data ex_solid)) = [4, 5, 1, 2, 1, 5, 2, 3, 2]"
proof -
  have l: "length (deformed ex_solid) = length (edges ex_solid)" by (simp add: ex_solid_def)
  have f: "f0 ex_solid < 0" "(3::int) * i0 ex_solid = 3" "xpos ex_data = (body_pos ex_model)(7 := 2)"
    by (simp_all add: ex_solid_def ex_data_def)
  show ?thesis
    unfolding Compute_lengths UpdateSquaredLengths_all [OF l] f
    using f(1) by (simp add: ex_moved_lengths)
qed

lemma ex_elongation:
  "elongation ex_model ex_data (ex_solid\<lparr>deformed := [4, 5, 1, 2, 1, 5, 2, 3, 2]\<rparr>) 0
     = [3, 3, 0, 0, 0, 3]"
  "elongation ex_model ex_data (ex_solid\<lparr>deformed := [4, 5, 1, 2, 1, 5, 2, 3, 2]\<rparr>) 1
     = [3, 0, 3, 0, 1, 0]"
  by (simp_all add: elongation_def upt_unroll ex_solid_def)

lemma ex_replicate: "replicate (kNumVerts * 3) (0::mjtNum) = [0, 0, 0, 0, 0, 0, 0, 0, 0, 0, 0, 0]"
  by (simp add: numeral_eq_Suc)

lemma ex_local_force_0:
  "local_force [3, 3, 0, 0, 0, 3]
     (GradSquaredLengths (ptr_add ((body_pos ex_model)(7 := 2)) 3) [0, 1, 2, 3] edge)
     (metric ex_solid) 0 =
   [- (375 / 13), - (1250 / 13), - (375 / 13), 0, 1250 / 13, 0, 375 / 13, 0, 0, 0, 0, 375 / 13]"
  unfolding local_force_rows ex_replicate ex_moved_positions
  by (simp add: upt_unroll force_row_def force_cell_def GradSquaredLengths_def edge_def
      ex_solid_def)

lemma ex_local_force_1:
  "local_force [3, 0, 3, 0, 1, 0]
     (GradSquaredLengths (ptr_add ((body_pos ex_model)(7 := 2)) 3) [1, 2, 3, 4] edge)
     (metric ex_solid) 1 =
   [- (3875 / 156), 23875 / 312, - (3875 / 156), 1125 / 52, - (4375 / 104), - (625 / 52),
    - (625 / 52), - (4375 / 104), 1125 / 52, 2375 / 156, 2375 / 312, 2375 / 156]"
  unfolding local_force_rows ex_replicate ex_moved_positions
  by (simp add: upt_unroll force_row_def force_cell_def GradSquaredLengths_def edge_def
      ex_solid_def)

lemma ex_element_steps:
  "element_step ex_model ex_data (ex_solid\<lparr>deformed := [4, 5, 1, 2, 1, 5, 2, 3, 2]\<rparr>) 0 q =
     insert_force q 0 [0, 1, 2, 3]
       [- (375 / 13), - (1250 / 13), - (375 / 13), 0, 1250 / 13, 0, 375 / 13, 0, 0, 0, 0, 375 / 13]"
  "element_step ex_model ex_data (ex_solid\<lparr>deformed := [4, 5, 1, 2, 1, 5, 2, 3, 2]\<rparr>) 1 q =
     insert_force q 0 [1, 2, 3, 4]
       [- (3875 / 156), 23875 / 312, - (3875 / 156), 1125 / 52, - (4375 / 104), - (625 / 52),
        - (625 / 52), - (4375 / 104), 1125 / 52, 2375 / 156, 2375 / 312, 2375 / 156]"
proof -
  let ?s = "ex_solid\<lparr>deformed := [4, 5, 1, 2, 1, 5, 2, 3, 2]\<rparr>"
  have a: "vertices (elements ?s ! 0) = [0, 1, 2, 3]" "vertices (elements ?s ! 1) = [1, 2, 3, 4]"
    "(3::int) * i0 ?s = 3" "body_dofadr ex_model (i0 ?s) = 0"
    "xpos ex_data = (body_pos ex_model)(7 := 2)" "metric ?s = metric ex_solid"
    by (simp_all add: ex_solid_def ex_model_def ex_data_def)
  show "element_step ex_model ex_data ?s 0 q =
     insert_force q 0 [0, 1, 2, 3]
       [- (375 / 13), - (1250 / 13), - (375 / 13), 0, 1250 / 13, 0, 375 / 13, 0, 0, 0, 0, 375 / 13]"
    unfolding element_step_def Let_def a ex_elongation ex_local_force_0 ..
  show "element_step ex_model ex_data ?s 1 q =
     insert_force q 0 [1, 2, 3, 4]
       [- (3875 / 156), 23875 / 312, - (3875 / 156), 1125 / 52, - (4375 / 104), - (625 / 52),
        - (625 / 52), - (4375 / 104), 1125 / 52, 2375 / 156, 2375 / 312, 2375 / 156]"
    unfolding element_step_def Let_def a ex_elongation ex_local_force_1 ..
qed

lemma ex_force:
  "qfrc_passive (fst (Compute ex_model ex_data ex_solid)) 4 = - (53875 / 312)"
proof -
  have n: "[0..<nt ex_solid] = [0, 1]" by (simp add: ex_solid_def upt_unroll)
  have q: "qfrc_passive ex_data = (\<lambda>i. 0)" by (simp add: ex_data_def)
  have "fold (element_step ex_model ex_data (ex_solid\<lparr>deformed := [4, 5, 1, 2, 1, 5, 2, 3, 2]\<rparr>))
          [0, 1] (\<lambda>i. 0) =
        insert_force (insert_force (\<lambda>i. 0) 0 [0, 1, 2, 3]
          [- (375 / 13), - (1250 / 13), - (375 / 13), 0, 1250 / 13, 0, 375 / 13, 0, 0, 0, 0, 375 / 13])
          0 [1, 2, 3, 4]
          [- (3875 / 156), 23875 / 312, - (3875 / 156), 1125 / 52, - (4375 / 104), - (625 / 52),
           - (625 / 52), - (4375 / 104), 1125 / 52, 2375 / 156, 2375 / 312, 2375 / 156]"
    by (simp only: fold_simps comp_def id_def ex_element_steps)
  then show ?thesis
    unfolding Compute_force ex_deformed_moved n q
    by (simp add: insert_force_def upt_unroll)
qed

lemma CreateStencils_f0:
  assumes "CreateStencils s0 simplex edgeidx = Inr s"
  shows "CreateStencils (s0\<lparr>f0 := x\<rparr>) simplex edgeidx = Inr (s\<lparr>f0 := x\<rparr>)"
proof -
  let ?n = "length simplex div kNumVerts"
  from assms obtain els' ei es k where
    loop: "tet_loop edgeidx 0 (populate simplex ?n) (Map.empty, edges s0, ne s0) = Inr (els', ei, es, k)"
    and s: "s = s0\<lparr>nt := ?n, elements := els', edges := es, ne := k\<rparr>"
    by (auto simp: CreateStencils_def Let_def split: sum.splits)
  then show ?thesis by (simp add: CreateStencils_def Let_def)
qed

lemma metric_loop_host:
  assumes "body_plugin m' = body_plugin m" and "body_pos m' = body_pos m"
  shows "metric_loop m' inst b nu E els = metric_loop m inst b nu E els"
  by (induction els) (simp_all add: assms split: sum.splits)

lemma ex_flex_built:
  "Solid_Solid ex_flex_model 0 (3 / 10) 100 0 ex_simplex [] 0 = Inr (ex_solid\<lparr>f0 := 0\<rparr>)"
proof -
  have h: "body_plugin ex_flex_model = body_plugin ex_model"
    "body_pos ex_flex_model = body_pos ex_model"
    by (simp_all add: ex_flex_model_def)
  have b: "filter (\<lambda>i. body_plugin ex_flex_model (int i) = 0) [1..<nbody ex_flex_model]
             = [1, 2, 3, 4, 5]"
    by (simp add: ex_flex_model_def ex_model_def upt_rec)
  have f: "filter (\<lambda>i. flex_vertbodyid ex_flex_model (flex_vertadr ex_flex_model (int i)) = int 1)
             [0..<nflex ex_flex_model] = [0]"
    by (simp add: ex_flex_model_def)
  have s: "i0 ex_stencil = 1" "ne ex_stencil = 9" by (simp_all add: ex_stencil_def)
  have st: "CreateStencils (ex_blank\<lparr>f0 := 0\<rparr>) ex_simplex [] = Inr (ex_stencil\<lparr>f0 := 0\<rparr>)"
    by (rule CreateStencils_f0 [OF ex_stencil_built])
  have fin: "ex_stencil\<lparr>f0 := 0, metric := metric ex_solid,
              reference := [1, 2, 1, 2, 1, 2, 2, 2, 2],
              deformed := replicate 9 0, previous := [1, 2, 1, 2, 1, 2, 2, 2, 2]\<rparr>
             = ex_solid\<lparr>f0 := 0\<rparr>"
    by (simp add: ex_stencil_def ex_solid_def numeral_eq_Suc)
  show ?thesis
    unfolding Solid_Solid_def Let_def b list.case f
    using st [unfolded ex_blank_def] ex_metric_built ex_reference_built fin
    by (simp add: s Let_def numeral_eq_Suc metric_loop_host [OF h] h(2))
qed

section \<open>Scaling with Young's modulus\<close>

lemma scale_entry:
  fixes c :: mjtNum
  shows "c * E / d1 * vol * X + c * E * nu / d2 * vol * Y * Z =
         c * (E / d1 * vol * X + E * nu / d2 * vol * Y * Z)"
  by (simp add: algebra_simps)

lemma element_metric_scale:
  "element_metric x nu (c * E) v = map ((*) c) (element_metric x nu E v)"
  unfolding element_metric_def Let_def
  by (simp only: map_concat map_map comp_def scale_entry)

lemma metric_loop_scale:
  "metric_loop m inst b nu (c * E) els =
     (case metric_loop m inst b nu E els of Inl err \<Rightarrow> Inl err | Inr M \<Rightarrow> Inr (map ((*) c) M))"
  by (induction els) (simp_all add: element_metric_scale split: sum.splits)

lemma Solid_Solid_scale:
  assumes "Solid_Solid m inst nu E damp simplex edgeidx b = Inr s"
  shows "Solid_Solid m inst nu (c * E) damp simplex edgeidx b =
           Inr (s\<lparr>metric := map ((*) c) (metric s)\<rparr>)"
  using assms
  by (auto simp: Solid_Solid_def Let_def metric_loop_scale split: sum.splits)

text \<open>
  Claim C5. If the constructor succeeds with Young's modulus \<open>E\<close>, it succeeds with
  \<open>2 * E\<close> and everything else the same, and for any host data one call of
  \<^verbatim>\<open>Compute\<close> adds to every entry of \<^verbatim>\<open>qfrc_passive\<close> exactly twice what it adds with
  modulus \<open>E\<close> (in exact arithmetic).
\<close>

theorem force_doubles_with_young:
  assumes "Solid_Solid m inst nu E damp simplex edgeidx b = Inr s1"
  shows "\<exists>s2. Solid_Solid m inst nu (2 * E) damp simplex edgeidx b = Inr s2 \<and>
           (\<forall>k. qfrc_passive (fst (Compute m d s2)) k - qfrc_passive d k =
                 2 * (qfrc_passive (fst (Compute m d s1)) k - qfrc_passive d k))"
proof -
  have len: "length (metric s1) = 36 * nt s1"
    by (rule reachable_valid(7) [OF assms reachable.start])
  from Solid_Solid_scale [OF assms, of 2] Compute_scale [OF len, of m d 2]
  show ?thesis by blast
qed

theorem force_doubles_with_young_witness:
  "Solid_Solid ex_model 0 (3 / 10) 100 0 ex_simplex [] 0 = Inr ex_solid \<and>
   Solid_Solid ex_model 0 (3 / 10) (2 * 100) 0 ex_simplex [] 0 =
     Inr (ex_solid\<lparr>metric := map ((*) 2) (metric ex_solid)\<rparr>) \<and>
   qfrc_passive (fst (Compute ex_model ex_data ex_solid)) 4 - qfrc_passive ex_data 4
     = - (53875 / 312) \<and>
   qfrc_passive (fst (Compute ex_model ex_data (ex_solid\<lparr>metric := map ((*) 2) (metric ex_solid)\<rparr>))) 4
     - qfrc_passive ex_data 4 = - (53875 / 156)"
proof -
  from force_doubles_with_young [OF ex_solid_built, of ex_data]
  obtain s2 where a: "Solid_Solid ex_model 0 (3 / 10) (2 * 100) 0 ex_simplex [] 0 = Inr s2"
    and b: "\<forall>k. qfrc_passive (fst (Compute ex_model ex_data s2)) k - qfrc_passive ex_data k =
                 2 * (qfrc_passive (fst (Compute ex_model ex_data ex_solid)) k - qfrc_passive ex_data k)"
    by blast
  from Solid_Solid_scale [OF ex_solid_built, of 2] a
  have s2: "s2 = ex_solid\<lparr>metric := map ((*) 2) (metric ex_solid)\<rparr>" by simp
  have q: "qfrc_passive ex_data 4 = 0" by (simp add: ex_data_def)
  have c: "qfrc_passive (fst (Compute ex_model ex_data ex_solid)) 4 - qfrc_passive ex_data 4
             = - (53875 / 312)"
    by (simp add: ex_force q)
  from b have "qfrc_passive (fst (Compute ex_model ex_data s2)) 4 - qfrc_passive ex_data 4 =
                 2 * (qfrc_passive (fst (Compute ex_model ex_data ex_solid)) 4 - qfrc_passive ex_data 4)"
    by blast
  then have d: "qfrc_passive (fst (Compute ex_model ex_data s2)) 4 - qfrc_passive ex_data 4
                  = - (53875 / 156)"
    unfolding c by simp
  from a c d ex_solid_built show ?thesis unfolding s2 by blast
qed

section \<open>The rest state\<close>

lemma squared_length_cong:
  assumes "vec3_at x (3 * fst p) = vec3_at y (3 * fst p)"
    and "vec3_at x (3 * snd p) = vec3_at y (3 * snd p)"
  shows "squared_length x p = squared_length y p"
  by (simp add: squared_length_def assms)

lemma edge_pair_members:
  assumes "e < kNumEdges"
  shows "\<exists>i<kNumVerts. \<exists>j<kNumVerts. edge_pair v e = (v ! i, v ! j)"
proof -
  have a: "edge ! e ! 0 < kNumVerts" "edge ! e ! 1 < kNumVerts"
    using edge_entry_bound [OF assms] by simp_all
  show ?thesis
  proof (cases "v ! (edge ! e ! 0) \<le> v ! (edge ! e ! 1)")
    case True
    then have "edge_pair v e = (v ! (edge ! e ! 0), v ! (edge ! e ! 1))"
      by (simp add: edge_pair_def min_def max_def)
    with a show ?thesis by blast
  next
    case False
    then have "edge_pair v e = (v ! (edge ! e ! 1), v ! (edge ! e ! 0))"
      by (simp add: edge_pair_def min_def max_def)
    with a show ?thesis by blast
  qed
qed

lemma rest_lengths:
  assumes built: "Solid_Solid m inst nu E damp simplex edgeidx b = Inr s0"
    and reach: "reachable m s0 s"
    and pos: "\<forall>t<nt s. \<forall>i<kNumVerts.
         vec3_at (ptr_add (xpos d) (3 * i0 s)) (3 * vertices (elements s ! t) ! i) =
         vec3_at (ptr_add (body_pos m) (3 * i0 s)) (3 * vertices (elements s ! t) ! i)"
  shows "map (squared_length (ptr_add (xpos d) (3 * i0 s))) (edges s) = reference s"
proof -
  note post = Solid_Solid_post [OF built]
  from reachable_frame [OF reach]
  have fr: "i0 s = i0 s0" "edges s = edges s0" "reference s = reference s0"
    "nt s = nt s0" "elements s = elements s0"
    by simp_all
  have ref: "reference s = map (squared_length (ptr_add (body_pos m) (3 * i0 s))) (edges s)"
    using fr post(8) by simp
  have "squared_length (ptr_add (xpos d) (3 * i0 s)) p =
        squared_length (ptr_add (body_pos m) (3 * i0 s)) p" if "p \<in> set (edges s)" for p
  proof -
    from that have "p \<in> set (all_pairs simplex)" using fr post(4) by simp
    then obtain t e where t: "t < length simplex div kNumVerts" and e: "e < kNumEdges"
      and p: "p = edge_pair (tet simplex t) e"
      unfolding set_all_pairs by blast
    from t have ts: "t < nt s" using fr post(1) by simp
    then have v: "vertices (elements s ! t) = tet simplex t" using fr post(5) by simp
    from edge_pair_members [OF e] obtain i j where i: "i < kNumVerts" and j: "j < kNumVerts"
      and q: "edge_pair (tet simplex t) e = (tet simplex t ! i, tet simplex t ! j)"
      by blast
    from pos [rule_format, OF ts i]
    have a: "vec3_at (ptr_add (xpos d) (3 * i0 s)) (3 * fst p) =
             vec3_at (ptr_add (body_pos m) (3 * i0 s)) (3 * fst p)"
      unfolding p q v by simp
    from pos [rule_format, OF ts j]
    have b: "vec3_at (ptr_add (xpos d) (3 * i0 s)) (3 * snd p) =
             vec3_at (ptr_add (body_pos m) (3 * i0 s)) (3 * snd p)"
      unfolding p q v by simp
    from a b show ?thesis by (rule squared_length_cong)
  qed
  then show ?thesis unfolding ref by simp
qed

text \<open>
  Claim C2. Take an instance built with damping \<open>0\<close>, in any state it reaches by calls of
  \<^verbatim>\<open>Compute\<close>, and host data in which the three coordinates of every vertex of every
  element are those of the rest configuration of the model; the other entries of
  \<^verbatim>\<open>xpos\<close> are arbitrary. The instance is not degenerate: \<open>nu\<close> is neither \<open>-1\<close> nor
  \<open>1/2\<close>, no element has volume zero at rest, and without a flex the time step is not
  zero, so that no divisor of the constructor or of \<^verbatim>\<open>Compute\<close> is zero (at a zero
  divisor the C code produces an infinity or a NaN, which the reals do not have, and the
  statement is not made there). Without a flex the recomputed squared lengths then equal
  the reference lengths; with a flex, where the lengths are the host's, suppose that the
  host's current length of every edge of the instance has the same square as its rest
  length. Then \<^verbatim>\<open>Compute\<close> leaves every entry of \<^verbatim>\<open>qfrc_passive\<close> unchanged, for every
  \<open>E\<close> and every such \<open>nu\<close>, whatever \<^verbatim>\<open>previous\<close> holds.
\<close>

theorem rest_state_zero_force:
  assumes built: "Solid_Solid m inst nu E 0 simplex edgeidx b = Inr s0"
    and reach: "reachable m s0 s"
    and material: "nu \<noteq> - 1 \<and> nu \<noteq> 1 / 2"
    and volume: "\<forall>t<nt s.
         ComputeVolume (ptr_add (body_pos m) (3 * i0 s)) (vertices (elements s ! t)) \<noteq> 0"
    and timestep: "f0 s < 0 \<longrightarrow> opt_timestep m \<noteq> 0"
    and pos: "\<forall>t<nt s. \<forall>i<kNumVerts.
         vec3_at (ptr_add (xpos d) (3 * i0 s)) (3 * vertices (elements s ! t) ! i) =
         vec3_at (ptr_add (body_pos m) (3 * i0 s)) (3 * vertices (elements s ! t) ! i)"
    and flex: "\<not> f0 s < 0 \<longrightarrow>
      (\<forall>t<nt s. \<forall>e<kNumEdges.
         (flexedge_length d (int (edges_of (elements s ! t) ! e) + flex_edgeadr m (f0 s)))\<^sup>2 =
         (flexedge_length0 m (int (edges_of (elements s ! t) ! e) + flex_edgeadr m (f0 s)))\<^sup>2)"
  shows "qfrc_passive (fst (Compute m d s)) = qfrc_passive d"
proof -
  note post = Solid_Solid_post [OF built]
  note valid = reachable_valid [OF built reach]
  from reachable_frame [OF reach]
  have fr: "damping s = damping s0" by simp
  let ?s1 = "s\<lparr>deformed := deformed (snd (Compute m d s))\<rparr>"
  have damp: "damping s = 0" using fr post(6) by simp
  have zero: "elongation m d ?s1 t ! e = 0" if "t < nt s" and "e < kNumEdges" for t e
  proof (cases "f0 s < 0")
    case True
    have "length (deformed s) = length (edges s)" using valid(1,6) by simp
    then have "deformed (snd (Compute m d s)) = reference s"
      using True
      by (simp add: Compute_lengths UpdateSquaredLengths_all rest_lengths [OF built reach pos])
    then show ?thesis using True that(2) damp by (simp add: elongation_nth)
  next
    case False
    with flex that
    have "(flexedge_length d (int (edges_of (elements s ! t) ! e) + flex_edgeadr m (f0 s)))\<^sup>2 =
          (flexedge_length0 m (int (edges_of (elements s ! t) ! e) + flex_edgeadr m (f0 s)))\<^sup>2"
      by blast
    then show ?thesis using False that(2) by (simp add: elongation_nth power2_eq_square)
  qed
  have step: "element_step m d ?s1 t q = q" if "t \<in> set [0..<nt s]" for t q
  proof -
    from that have t: "t < nt s" by simp
    have "local_force (elongation m d ?s1 t)
            (GradSquaredLengths (ptr_add (xpos d) (3 * i0 ?s1)) (vertices (elements ?s1 ! t)) edge)
            (metric ?s1) t = replicate (kNumVerts * 3) 0"
      by (rule local_force_zero) (simp add: zero [OF t])
    then show ?thesis
      by (simp only: element_step_def Let_def insert_force_zero)
  qed
  have "fold (element_step m d ?s1) [0..<nt s] (qfrc_passive d) = qfrc_passive d"
    by (intro fold_invariant [where P = "\<lambda>q. q = qfrc_passive d"]) (simp_all only: step)
  then show ?thesis by (simp only: Compute_force)
qed

theorem rest_state_zero_force_witness:
  "Solid_Solid ex_model 0 (3 / 10) 100 0 ex_simplex [] 0 = Inr ex_solid \<and>
   reachable ex_model ex_solid (snd (Compute ex_model ex_data ex_solid)) \<and>
   (3 / 10 :: mjtNum) \<noteq> - 1 \<and> (3 / 10 :: mjtNum) \<noteq> 1 / 2 \<and>
   nt (snd (Compute ex_model ex_data ex_solid)) = 2 \<and>
   ComputeVolume (ptr_add (body_pos ex_model) (3 * i0 (snd (Compute ex_model ex_data ex_solid))))
     (vertices (elements (snd (Compute ex_model ex_data ex_solid)) ! 0)) = 1 / 6 \<and>
   ComputeVolume (ptr_add (body_pos ex_model) (3 * i0 (snd (Compute ex_model ex_data ex_solid))))
     (vertices (elements (snd (Compute ex_model ex_data ex_solid)) ! 1)) = 1 / 3 \<and>
   f0 (snd (Compute ex_model ex_data ex_solid)) < 0 \<and>
   opt_timestep ex_model = 1 / 500 \<and>
   xpos ex_rest_world 0 \<noteq> body_pos ex_model 0 \<and>
   (xpos ex_rest_world)(0 := 0) = body_pos ex_model \<and>
   qfrc_passive (fst (Compute ex_model ex_data ex_solid)) 4 \<noteq> qfrc_passive ex_data 4 \<and>
   qfrc_passive (fst (Compute ex_model ex_rest_world (snd (Compute ex_model ex_data ex_solid))))
     = qfrc_passive ex_rest_world \<and>
   Solid_Solid ex_flex_model 0 (3 / 10) 100 0 ex_simplex [] 0 = Inr (ex_solid\<lparr>f0 := 0\<rparr>) \<and>
   xpos ex_flex_data = body_pos ex_flex_model \<and>
   \<not> f0 (ex_solid\<lparr>f0 := 0\<rparr>) < 0 \<and>
   flexedge_length ex_flex_data = flexedge_length0 ex_flex_model \<and>
   qfrc_passive (fst (Compute ex_flex_model ex_flex_data (ex_solid\<lparr>f0 := 0\<rparr>)))
     = qfrc_passive ex_flex_data"
proof -
  let ?s = "snd (Compute ex_model ex_data ex_solid)"
  let ?t = "ex_solid\<lparr>f0 := 0\<rparr>"
  have r: "reachable ex_model ex_solid ?s"
    by (rule reachable.step [OF reachable.start])
  have nu: "(3 / 10 :: mjtNum) \<noteq> - 1 \<and> (3 / 10 :: mjtNum) \<noteq> 1 / 2" by simp
  have fr: "nt ?s = 2" "3 * i0 ?s = 3" "vertices (elements ?s ! 0) = [0, 1, 2, 3]"
    "vertices (elements ?s ! 1) = [1, 2, 3, 4]"
    by (simp_all add: Compute_frame ex_solid_def)
  have ft: "nt ?t = 2" "3 * i0 ?t = 3" "vertices (elements ?t ! 0) = [0, 1, 2, 3]"
    "vertices (elements ?t ! 1) = [1, 2, 3, 4]"
    by (simp_all add: ex_solid_def)
  have two: "t = 0 \<or> t = 1" if "t < 2" for t :: nat using that by arith
  have four: "i = 0 \<or> i = 1 \<or> i = 2 \<or> i = 3" if "i < kNumVerts" for i :: nat
    using that by arith
  have v0: "ComputeVolume (ptr_add (body_pos ex_model) (3 * i0 ?s)) (vertices (elements ?s ! 0))
              = 1 / 6"
    unfolding fr by (rule ex_volume)
  have v1: "ComputeVolume (ptr_add (body_pos ex_model) (3 * i0 ?s)) (vertices (elements ?s ! 1))
              = 1 / 3"
    unfolding fr by (rule ex_volume)
  have vol: "\<forall>t<nt ?s.
      ComputeVolume (ptr_add (body_pos ex_model) (3 * i0 ?s)) (vertices (elements ?s ! t)) \<noteq> 0"
  proof (intro allI impI)
    fix t assume "t < nt ?s"
    then have "t = 0 \<or> t = 1" using two fr(1) by simp
    then show "ComputeVolume (ptr_add (body_pos ex_model) (3 * i0 ?s))
                 (vertices (elements ?s ! t)) \<noteq> 0"
      using v0 v1 by auto
  qed
  have f: "f0 ?s < 0" by (simp add: Compute_frame ex_solid_def)
  have dt: "opt_timestep ex_model = 1 / 500" by (simp add: ex_model_def)
  then have ts: "f0 ?s < 0 \<longrightarrow> opt_timestep ex_model \<noteq> 0" by simp
  have away: "vec3_at (ptr_add (xpos ex_rest_world) 3) (3 * p) =
              vec3_at (ptr_add (body_pos ex_model) 3) (3 * p)" if "0 \<le> p" for p
    using that by (simp add: vec3_at_def ptr_add_def ex_rest_world_def)
  have pos: "\<forall>t<nt ?s. \<forall>i<kNumVerts.
      vec3_at (ptr_add (xpos ex_rest_world) (3 * i0 ?s)) (3 * vertices (elements ?s ! t) ! i) =
      vec3_at (ptr_add (body_pos ex_model) (3 * i0 ?s)) (3 * vertices (elements ?s ! t) ! i)"
  proof (intro allI impI)
    fix t i :: nat assume "t < nt ?s" and i: "i < kNumVerts"
    then have "t = 0 \<or> t = 1" using two fr(1) by simp
    with four [OF i] have "0 \<le> vertices (elements ?s ! t) ! i"
      using fr(3,4) by auto
    then show "vec3_at (ptr_add (xpos ex_rest_world) (3 * i0 ?s))
                 (3 * vertices (elements ?s ! t) ! i) =
               vec3_at (ptr_add (body_pos ex_model) (3 * i0 ?s))
                 (3 * vertices (elements ?s ! t) ! i)"
      unfolding fr(2) by (rule away)
  qed
  have h: "\<not> f0 ?s < 0 \<longrightarrow>
      (\<forall>t<nt ?s. \<forall>e<kNumEdges.
         (flexedge_length ex_rest_world (int (edges_of (elements ?s ! t) ! e) + flex_edgeadr ex_model (f0 ?s)))\<^sup>2 =
         (flexedge_length0 ex_model (int (edges_of (elements ?s ! t) ! e) + flex_edgeadr ex_model (f0 ?s)))\<^sup>2)"
    using f by simp
  have free: "qfrc_passive (fst (Compute ex_model ex_rest_world ?s)) = qfrc_passive ex_rest_world"
    by (rule rest_state_zero_force [OF ex_solid_built r nu vol ts pos h])
  have d0: "xpos ex_rest_world 0 \<noteq> body_pos ex_model 0"
    by (simp add: ex_rest_world_def ex_model_def)
  have d1: "(xpos ex_rest_world)(0 := 0) = body_pos ex_model"
    by (rule ext) (simp add: ex_rest_world_def ex_model_def)
  have q: "qfrc_passive ex_data 4 = 0" by (simp add: ex_data_def)
  have moved: "qfrc_passive (fst (Compute ex_model ex_data ex_solid)) 4 \<noteq> qfrc_passive ex_data 4"
    unfolding ex_force q by simp
  have bp: "body_pos ex_flex_model = body_pos ex_model" by (simp add: ex_flex_model_def)
  have p': "xpos ex_flex_data = body_pos ex_flex_model"
    by (simp add: ex_flex_data_def ex_rest_data_def ex_flex_model_def)
  have g: "\<not> f0 ?t < 0" by simp
  have vol': "\<forall>t<nt ?t.
      ComputeVolume (ptr_add (body_pos ex_flex_model) (3 * i0 ?t)) (vertices (elements ?t ! t)) \<noteq> 0"
  proof (intro allI impI)
    fix t assume "t < nt ?t"
    then have "t = 0 \<or> t = 1" using two ft(1) by simp
    then show "ComputeVolume (ptr_add (body_pos ex_flex_model) (3 * i0 ?t))
                 (vertices (elements ?t ! t)) \<noteq> 0"
      unfolding bp ft(2) using ft(3,4) ex_volume by auto
  qed
  have ts': "f0 ?t < 0 \<longrightarrow> opt_timestep ex_flex_model \<noteq> 0" by simp
  have pos': "\<forall>t<nt ?t. \<forall>i<kNumVerts.
      vec3_at (ptr_add (xpos ex_flex_data) (3 * i0 ?t)) (3 * vertices (elements ?t ! t) ! i) =
      vec3_at (ptr_add (body_pos ex_flex_model) (3 * i0 ?t)) (3 * vertices (elements ?t ! t) ! i)"
    unfolding p' by simp
  have fl: "flexedge_length ex_flex_data = flexedge_length0 ex_flex_model"
    by (simp add: ex_flex_data_def ex_flex_model_def)
  have h': "\<not> f0 ?t < 0 \<longrightarrow>
      (\<forall>t<nt ?t. \<forall>e<kNumEdges.
         (flexedge_length ex_flex_data (int (edges_of (elements ?t ! t) ! e) + flex_edgeadr ex_flex_model (f0 ?t)))\<^sup>2 =
         (flexedge_length0 ex_flex_model (int (edges_of (elements ?t ! t) ! e) + flex_edgeadr ex_flex_model (f0 ?t)))\<^sup>2)"
    unfolding fl by simp
  have flex: "qfrc_passive (fst (Compute ex_flex_model ex_flex_data ?t)) = qfrc_passive ex_flex_data"
    by (rule rest_state_zero_force [OF ex_flex_built reachable.start nu vol' ts' pos' h'])
  from nu have nu1: "(3 / 10 :: mjtNum) \<noteq> - 1" and nu2: "(3 / 10 :: mjtNum) \<noteq> 1 / 2"
    by simp_all
  from ex_solid_built r nu1 nu2 fr(1) v0 v1 f dt d0 d1 moved free ex_flex_built p' g fl flex
  show ?thesis by (intro conjI)
qed

section \<open>The elongation in the force evaluator\<close>

lemma fold_adds:
  assumes len: "\<And>a F. a \<in> set as \<Longrightarrow> length F = n \<Longrightarrow> length (G a F) = n"
    and nth: "\<And>a F k. a \<in> set as \<Longrightarrow> length F = n \<Longrightarrow> k < n \<Longrightarrow> G a F ! k = F ! k + W a k"
    and F: "length (F :: mjtNum list) = n"
  shows "length (fold G as F) = n \<and> (\<forall>k<n. fold G as F ! k = F ! k + (\<Sum>a\<leftarrow>as. W a k))"
  using assms
proof (induction as arbitrary: F)
  case Nil
  then show ?case by simp
next
  case (Cons a as)
  have l: "length (G a F) = n" using Cons.prems(1,3) by simp
  have "length (fold G as (G a F)) = n \<and>
        (\<forall>k<n. fold G as (G a F) ! k = G a F ! k + (\<Sum>a\<leftarrow>as. W a k))"
    by (rule Cons.IH) (simp_all add: Cons.prems(1,2) l)
  then show ?case using Cons.prems(2) [of a F] Cons.prems(3) by (simp add: add.assoc)
qed

lemma update_adds:
  assumes "h < length (F :: mjtNum list)"
  shows "length (F[h := F ! h + w]) = length F \<and>
         (\<forall>k<length F. F[h := F ! h + w] ! k = F ! k + (if h = k then w else 0))"
  using assms by (simp add: nth_list_update)

lemma local_force_nth:
  assumes k: "k < kNumVerts * 3"
  shows "local_force elong gradient M t ! k =
     (\<Sum>ed1\<leftarrow>[0..<kNumEdges]. \<Sum>ed2\<leftarrow>[0..<kNumEdges]. \<Sum>i\<leftarrow>[0..<2]. \<Sum>x\<leftarrow>[0..<3].
        if 3 * (edge ! ed2 ! i) + x = k
        then elong ! ed1 * gradient ed2 i x *
             M ! (kNumEdges * kNumEdges * t + kNumEdges * ed1 + ed2)
        else 0)"
proof -
  let ?n = "kNumVerts * 3"
  let ?w = "\<lambda>ed1 ed2 i x. elong ! ed1 * gradient ed2 i x *
              M ! (kNumEdges * kNumEdges * t + kNumEdges * ed1 + ed2)"
  let ?h = "\<lambda>ed2 i x. 3 * (edge ! ed2 ! i) + x"
  let ?Gx = "\<lambda>ed1 ed2 i x (force :: mjtNum list).
               force[?h ed2 i x := force ! ?h ed2 i x + ?w ed1 ed2 i x]"
  let ?Wx = "\<lambda>ed1 ed2 i x k. if ?h ed2 i x = k then ?w ed1 ed2 i x else 0"
  have lx: "length (fold (?Gx ed1 ed2 i) [0..<3] F) = ?n \<and>
            (\<forall>k<?n. fold (?Gx ed1 ed2 i) [0..<3] F ! k = F ! k + (\<Sum>x\<leftarrow>[0..<3]. ?Wx ed1 ed2 i x k))"
    if "ed2 \<in> set [0..<kNumEdges]" and "i \<in> set [0..<2]" and "length F = ?n" for ed1 ed2 i F
  proof (rule fold_adds [OF _ _ that(3)])
    fix x and F' :: "mjtNum list" assume x: "x \<in> set [0..<3]" and F': "length F' = ?n"
    have h: "?h ed2 i x < length F'"
      using force_index_bound [of ed2 i x] that(1,2) x F' by simp
    from update_adds [OF h] F' show "length (?Gx ed1 ed2 i x F') = ?n" by simp
    fix k assume "k < ?n"
    with update_adds [OF h, of "?w ed1 ed2 i x"] F'
    show "?Gx ed1 ed2 i x F' ! k = F' ! k + ?Wx ed1 ed2 i x k" by simp
  qed
  let ?Gi = "\<lambda>ed1 ed2 i. fold (?Gx ed1 ed2 i) [0..<3]"
  let ?Wi = "\<lambda>ed1 ed2 i k. \<Sum>x\<leftarrow>[0..<3]. ?Wx ed1 ed2 i x k"
  have li: "length (fold (?Gi ed1 ed2) [0..<2] F) = ?n \<and>
            (\<forall>k<?n. fold (?Gi ed1 ed2) [0..<2] F ! k = F ! k + (\<Sum>i\<leftarrow>[0..<2]. ?Wi ed1 ed2 i k))"
    if "ed2 \<in> set [0..<kNumEdges]" and "length F = ?n" for ed1 ed2 F
  proof (rule fold_adds [OF _ _ that(2)])
    fix i and F' :: "mjtNum list" assume i: "i \<in> set [0..<2]" and F': "length F' = ?n"
    from lx [OF that(1) i F'] show "length (?Gi ed1 ed2 i F') = ?n" by blast
    fix k assume "k < ?n"
    with lx [OF that(1) i F'] show "?Gi ed1 ed2 i F' ! k = F' ! k + ?Wi ed1 ed2 i k" by blast
  qed
  let ?Ge = "\<lambda>ed1 ed2. fold (?Gi ed1 ed2) [0..<2]"
  let ?We = "\<lambda>ed1 ed2 k. \<Sum>i\<leftarrow>[0..<2]. ?Wi ed1 ed2 i k"
  have le: "length (fold (?Ge ed1) [0..<kNumEdges] F) = ?n \<and>
            (\<forall>k<?n. fold (?Ge ed1) [0..<kNumEdges] F ! k =
                      F ! k + (\<Sum>ed2\<leftarrow>[0..<kNumEdges]. ?We ed1 ed2 k))"
    if "length F = ?n" for ed1 F
  proof (rule fold_adds [OF _ _ that])
    fix ed2 and F' :: "mjtNum list" assume e: "ed2 \<in> set [0..<kNumEdges]" and F': "length F' = ?n"
    from li [OF e F'] show "length (?Ge ed1 ed2 F') = ?n" by blast
    fix k assume "k < ?n"
    with li [OF e F'] show "?Ge ed1 ed2 F' ! k = F' ! k + ?We ed1 ed2 k" by blast
  qed
  let ?Gd = "\<lambda>ed1. fold (?Ge ed1) [0..<kNumEdges]"
  let ?Wd = "\<lambda>ed1 k. \<Sum>ed2\<leftarrow>[0..<kNumEdges]. ?We ed1 ed2 k"
  have r: "length (replicate ?n (0::mjtNum)) = ?n" by simp
  have "length (fold ?Gd [0..<kNumEdges] (replicate ?n 0)) = ?n \<and>
        (\<forall>k<?n. fold ?Gd [0..<kNumEdges] (replicate ?n 0) ! k =
                  replicate ?n 0 ! k + (\<Sum>ed1\<leftarrow>[0..<kNumEdges]. ?Wd ed1 k))"
  proof (rule fold_adds [OF _ _ r])
    fix ed1 and F' :: "mjtNum list" assume F': "length F' = ?n"
    from le [OF F'] show "length (?Gd ed1 F') = ?n" by blast
    fix k assume "k < ?n"
    with le [OF F'] show "?Gd ed1 F' ! k = F' ! k + ?Wd ed1 k" by blast
  qed
  with k have "fold ?Gd [0..<kNumEdges] (replicate ?n 0) ! k =
               (\<Sum>ed1\<leftarrow>[0..<kNumEdges]. ?Wd ed1 k)"
    by simp
  then show ?thesis by (simp only: local_force_def)
qed

lemma fold_subtracts:
  assumes "\<And>a q. a \<in> set as \<Longrightarrow> G a q j = q j - W a"
  shows "fold G as (q :: int \<Rightarrow> mjtNum) j = q j - (\<Sum>a\<leftarrow>as. W a)"
  using assms by (induction as arbitrary: q) (simp_all add: algebra_simps)

lemma insert_force_apply:
  "insert_force q adr v force j =
     q j - (\<Sum>i\<leftarrow>[0..<kNumVerts]. \<Sum>x\<leftarrow>[0..<3].
              if adr + 3 * v ! i + int x = j then force ! (3 * i + x) else 0)"
proof -
  have inner: "fold (\<lambda>x q'. q'(adr + 3 * v ! i + int x :=
                      q' (adr + 3 * v ! i + int x) - force ! (3 * i + x))) [0..<3] q' j =
               q' j - (\<Sum>x\<leftarrow>[0..<3]. if adr + 3 * v ! i + int x = j then force ! (3 * i + x) else 0)"
    for i q'
    by (rule fold_subtracts) simp
  show ?thesis
    unfolding insert_force_def
    by (rule fold_subtracts) (rule inner)
qed

lemma Compute_force_explicit:
  "qfrc_passive (fst (Compute m d s)) =
     fold (\<lambda>t q.
        insert_force q (body_dofadr m (i0 s)) (vertices (elements s ! t))
          (local_force
             (map (\<lambda>e.
                if f0 s < 0
                then UpdateSquaredLengths (deformed s) (edges s) (ptr_add (xpos d) (3 * i0 s)) !
                       (edges_of (elements s ! t) ! e) -
                     reference s ! (edges_of (elements s ! t) ! e) +
                     (UpdateSquaredLengths (deformed s) (edges s) (ptr_add (xpos d) (3 * i0 s)) !
                        (edges_of (elements s ! t) ! e) -
                      previous s ! (edges_of (elements s ! t) ! e)) *
                     (damping s / opt_timestep m)
                else (flexedge_length d (int (edges_of (elements s ! t) ! e) + flex_edgeadr m (f0 s)))\<^sup>2 -
                     (flexedge_length0 m (int (edges_of (elements s ! t) ! e) + flex_edgeadr m (f0 s)))\<^sup>2)
              [0..<kNumEdges])
             (GradSquaredLengths (ptr_add (xpos d) (3 * i0 s)) (vertices (elements s ! t)) edge)
             (metric s) t))
       [0..<nt s] (qfrc_passive d)"
proof (cases "f0 s < 0")
  case True
  then show ?thesis
    by (simp add: Compute_def Let_def element_step_def [abs_def] elongation_def)
next
  case False
  then show ?thesis
    by (simp add: Compute_def Let_def element_step_def [abs_def] elongation_def power2_eq_square)
qed

text \<open>
  Claim C3. What \<^verbatim>\<open>Compute\<close> writes into \<^verbatim>\<open>qfrc_passive\<close> is, element after element,
  the insertion of the local force contracted from an elongation array whose entry for
  local edge \<open>e\<close> of element \<open>t\<close> is, without a flex,
  \<open>deformed - reference + (deformed - previous) * (damping / timestep)\<close> at the edge id of
  \<open>(t, e)\<close>, with the squared lengths recomputed in this call as \<open>deformed\<close>, and with a
  flex the square of the host's current length of the edge minus the square of the host's
  rest length, where the damping does not enter. Entry \<open>k\<close> of the local force is the
  sum of \<open>elongation[ed1] * gradient[ed2][i][x] * metric[36*t + 6*ed1 + ed2]\<close> over the
  loop indices with \<open>3 * edge[ed2][i] + x = k\<close>, and the insertion subtracts the entries
  of the local force at the dofs of the four vertices. The array \<^verbatim>\<open>elongation\<close> of the
  model has these entries.
\<close>

theorem elongation_used:
  assumes "e < kNumEdges" and "k < kNumVerts * 3"
  shows "qfrc_passive (fst (Compute m d s)) =
     fold (\<lambda>t q.
        insert_force q (body_dofadr m (i0 s)) (vertices (elements s ! t))
          (local_force
             (map (\<lambda>e.
                if f0 s < 0
                then UpdateSquaredLengths (deformed s) (edges s) (ptr_add (xpos d) (3 * i0 s)) !
                       (edges_of (elements s ! t) ! e) -
                     reference s ! (edges_of (elements s ! t) ! e) +
                     (UpdateSquaredLengths (deformed s) (edges s) (ptr_add (xpos d) (3 * i0 s)) !
                        (edges_of (elements s ! t) ! e) -
                      previous s ! (edges_of (elements s ! t) ! e)) *
                     (damping s / opt_timestep m)
                else (flexedge_length d (int (edges_of (elements s ! t) ! e) + flex_edgeadr m (f0 s)))\<^sup>2 -
                     (flexedge_length0 m (int (edges_of (elements s ! t) ! e) + flex_edgeadr m (f0 s)))\<^sup>2)
              [0..<kNumEdges])
             (GradSquaredLengths (ptr_add (xpos d) (3 * i0 s)) (vertices (elements s ! t)) edge)
             (metric s) t))
       [0..<nt s] (qfrc_passive d) \<and>
   local_force elong gradient M t ! k =
     (\<Sum>ed1\<leftarrow>[0..<kNumEdges]. \<Sum>ed2\<leftarrow>[0..<kNumEdges]. \<Sum>i\<leftarrow>[0..<2]. \<Sum>x\<leftarrow>[0..<3].
        if 3 * (edge ! ed2 ! i) + x = k
        then elong ! ed1 * gradient ed2 i x *
             M ! (kNumEdges * kNumEdges * t + kNumEdges * ed1 + ed2)
        else 0) \<and>
   insert_force q adr v force j =
     q j - (\<Sum>i\<leftarrow>[0..<kNumVerts]. \<Sum>x\<leftarrow>[0..<3].
              if adr + 3 * v ! i + int x = j then force ! (3 * i + x) else 0) \<and>
   (f0 s < 0 \<longrightarrow>
      elongation m d (s\<lparr>deformed := deformed (snd (Compute m d s))\<rparr>) t ! e =
        deformed (snd (Compute m d s)) ! (edges_of (elements s ! t) ! e) -
        reference s ! (edges_of (elements s ! t) ! e) +
        (deformed (snd (Compute m d s)) ! (edges_of (elements s ! t) ! e) -
         previous s ! (edges_of (elements s ! t) ! e)) * (damping s / opt_timestep m)) \<and>
   (\<not> f0 s < 0 \<longrightarrow>
      elongation m d (s\<lparr>deformed := deformed (snd (Compute m d s))\<rparr>) t ! e =
        (flexedge_length d (int (edges_of (elements s ! t) ! e) + flex_edgeadr m (f0 s)))\<^sup>2 -
        (flexedge_length0 m (int (edges_of (elements s ! t) ! e) + flex_edgeadr m (f0 s)))\<^sup>2)"
proof (intro conjI)
  show "qfrc_passive (fst (Compute m d s)) =
     fold (\<lambda>t q.
        insert_force q (body_dofadr m (i0 s)) (vertices (elements s ! t))
          (local_force
             (map (\<lambda>e.
                if f0 s < 0
                then UpdateSquaredLengths (deformed s) (edges s) (ptr_add (xpos d) (3 * i0 s)) !
                       (edges_of (elements s ! t) ! e) -
                     reference s ! (edges_of (elements s ! t) ! e) +
                     (UpdateSquaredLengths (deformed s) (edges s) (ptr_add (xpos d) (3 * i0 s)) !
                        (edges_of (elements s ! t) ! e) -
                      previous s ! (edges_of (elements s ! t) ! e)) *
                     (damping s / opt_timestep m)
                else (flexedge_length d (int (edges_of (elements s ! t) ! e) + flex_edgeadr m (f0 s)))\<^sup>2 -
                     (flexedge_length0 m (int (edges_of (elements s ! t) ! e) + flex_edgeadr m (f0 s)))\<^sup>2)
              [0..<kNumEdges])
             (GradSquaredLengths (ptr_add (xpos d) (3 * i0 s)) (vertices (elements s ! t)) edge)
             (metric s) t))
       [0..<nt s] (qfrc_passive d)"
    by (rule Compute_force_explicit)
  show "local_force elong gradient M t ! k =
     (\<Sum>ed1\<leftarrow>[0..<kNumEdges]. \<Sum>ed2\<leftarrow>[0..<kNumEdges]. \<Sum>i\<leftarrow>[0..<2]. \<Sum>x\<leftarrow>[0..<3].
        if 3 * (edge ! ed2 ! i) + x = k
        then elong ! ed1 * gradient ed2 i x *
             M ! (kNumEdges * kNumEdges * t + kNumEdges * ed1 + ed2)
        else 0)"
    by (rule local_force_nth [OF assms(2)])
  show "insert_force q adr v force j =
     q j - (\<Sum>i\<leftarrow>[0..<kNumVerts]. \<Sum>x\<leftarrow>[0..<3].
              if adr + 3 * v ! i + int x = j then force ! (3 * i + x) else 0)"
    by (rule insert_force_apply)
  show "f0 s < 0 \<longrightarrow>
      elongation m d (s\<lparr>deformed := deformed (snd (Compute m d s))\<rparr>) t ! e =
        deformed (snd (Compute m d s)) ! (edges_of (elements s ! t) ! e) -
        reference s ! (edges_of (elements s ! t) ! e) +
        (deformed (snd (Compute m d s)) ! (edges_of (elements s ! t) ! e) -
         previous s ! (edges_of (elements s ! t) ! e)) * (damping s / opt_timestep m)"
    using assms(1) by (simp add: elongation_nth)
  show "\<not> f0 s < 0 \<longrightarrow>
      elongation m d (s\<lparr>deformed := deformed (snd (Compute m d s))\<rparr>) t ! e =
        (flexedge_length d (int (edges_of (elements s ! t) ! e) + flex_edgeadr m (f0 s)))\<^sup>2 -
        (flexedge_length0 m (int (edges_of (elements s ! t) ! e) + flex_edgeadr m (f0 s)))\<^sup>2"
    using assms(1) by (simp add: elongation_nth power2_eq_square)
qed

theorem elongation_used_witness:
  "(0::nat) < kNumEdges \<and> (4::nat) < kNumVerts * 3 \<and>
   fold (\<lambda>t q.
        insert_force q (body_dofadr ex_model (i0 ex_solid)) (vertices (elements ex_solid ! t))
          (local_force
             (map (\<lambda>e.
                if f0 ex_solid < 0
                then UpdateSquaredLengths (deformed ex_solid) (edges ex_solid)
                       (ptr_add (xpos ex_data) (3 * i0 ex_solid)) !
                       (edges_of (elements ex_solid ! t) ! e) -
                     reference ex_solid ! (edges_of (elements ex_solid ! t) ! e) +
                     (UpdateSquaredLengths (deformed ex_solid) (edges ex_solid)
                        (ptr_add (xpos ex_data) (3 * i0 ex_solid)) !
                        (edges_of (elements ex_solid ! t) ! e) -
                      previous ex_solid ! (edges_of (elements ex_solid ! t) ! e)) *
                     (damping ex_solid / opt_timestep ex_model)
                else (flexedge_length ex_data
                        (int (edges_of (elements ex_solid ! t) ! e) +
                         flex_edgeadr ex_model (f0 ex_solid)))\<^sup>2 -
                     (flexedge_length0 ex_model
                        (int (edges_of (elements ex_solid ! t) ! e) +
                         flex_edgeadr ex_model (f0 ex_solid)))\<^sup>2)
              [0..<kNumEdges])
             (GradSquaredLengths (ptr_add (xpos ex_data) (3 * i0 ex_solid))
                (vertices (elements ex_solid ! t)) edge)
             (metric ex_solid) t))
       [0..<nt ex_solid] (qfrc_passive ex_data) 4 = - (53875 / 312) \<and>
   (\<Sum>ed1\<leftarrow>[0..<kNumEdges]. \<Sum>ed2\<leftarrow>[0..<kNumEdges]. \<Sum>i\<leftarrow>[0..<2]. \<Sum>x\<leftarrow>[0..<3].
        if 3 * (edge ! ed2 ! i) + x = 4
        then [3, 3, 0, 0, 0, 3] ! ed1 *
             GradSquaredLengths (ptr_add ((body_pos ex_model)(7 := 2)) 3) [0, 1, 2, 3] edge ed2 i x *
             metric ex_solid ! (kNumEdges * kNumEdges * 0 + kNumEdges * ed1 + ed2)
        else 0) = 1250 / 13 \<and>
   insert_force (\<lambda>i. 0) 0 [0, 1, 2, 3]
     [- (375 / 13), - (1250 / 13), - (375 / 13), 0, 1250 / 13, 0, 375 / 13, 0, 0, 0, 0, 375 / 13] 4
     = - (1250 / 13) \<and>
   f0 (snd (Compute ex_model cx_data1 ex_damped)) < 0 \<and>
   elongation ex_model cx_data2 cx_state 0 ! 0 = - (9 / 32) \<and>
   \<not> f0 (ex_solid\<lparr>f0 := 0\<rparr>) < 0 \<and>
   elongation (ex_model\<lparr>flexedge_length0 := \<lambda>i. 2\<rparr>) (ex_data\<lparr>flexedge_length := \<lambda>i. 3\<rparr>)
     (ex_solid\<lparr>f0 := 0\<rparr>) 0 ! 0 = 5"
proof -
  have e: "(0::nat) < kNumEdges" by simp
  have k: "(4::nat) < kNumVerts * 3" by simp
  note r = elongation_used [OF e k, where m = ex_model and d = ex_data and s = ex_solid
      and elong = "[3, 3, 0, 0, 0, 3]"
      and gradient = "GradSquaredLengths (ptr_add ((body_pos ex_model)(7 := 2)) 3) [0, 1, 2, 3] edge"
      and M = "metric ex_solid" and t = 0 and q = "\<lambda>i. 0" and adr = 0 and v = "[0, 1, 2, 3]"
      and force = "[- (375 / 13), - (1250 / 13), - (375 / 13), 0, 1250 / 13, 0, 375 / 13, 0, 0, 0, 0, 375 / 13]"
      and j = 4]
  note A = r [THEN conjunct1]
  note B = r [THEN conjunct2, THEN conjunct1]
  note C = r [THEN conjunct2, THEN conjunct2, THEN conjunct1]
  have a: "qfrc_passive (fst (Compute ex_model ex_data ex_solid)) 4 = - (53875 / 312)"
    by (rule ex_force)
  have b: "local_force [3, 3, 0, 0, 0, 3]
     (GradSquaredLengths (ptr_add ((body_pos ex_model)(7 := 2)) 3) [0, 1, 2, 3] edge)
     (metric ex_solid) 0 ! 4 = 1250 / 13"
    unfolding ex_local_force_0 by simp
  have c: "insert_force (\<lambda>i. 0) 0 [0, 1, 2, 3]
     [- (375 / 13), - (1250 / 13), - (375 / 13), 0, 1250 / 13, 0, 375 / 13, 0, 0, 0, 0, 375 / 13] 4
     = - (1250 / 13)"
    unfolding C by (simp add: upt_unroll)
  let ?s1 = "snd (Compute ex_model cx_data1 ex_damped)"
  have f: "f0 ?s1 < 0" by (simp add: Compute_frame ex_damped_def ex_solid_def)
  have fr: "reference ?s1 = reference ex_damped" "elements ?s1 = elements ex_damped"
    "damping ?s1 = damping ex_damped"
    by (simp_all add: Compute_frame)
  have p: "previous ?s1 = previous cx_state"
    using arg_cong [OF cx_state_reached, of previous] by simp
  have d: "deformed (snd (Compute ex_model cx_data2 ?s1)) = deformed cx_state"
    using arg_cong [OF cx_state_reached, of deformed] by simp
  have cs: "?s1\<lparr>deformed := deformed cx_state\<rparr> = cx_state"
    using cx_state_reached by (simp only: d)
  note r2 = elongation_used [OF e k, where m = ex_model and d = cx_data2 and s = ?s1 and t = 0]
  from r2 [THEN conjunct2, THEN conjunct2, THEN conjunct2, THEN conjunct1] f
  have "elongation ex_model cx_data2 cx_state 0 ! 0 =
          deformed cx_state ! (edges_of (elements ex_damped ! 0) ! 0) -
          reference ex_damped ! (edges_of (elements ex_damped ! 0) ! 0) +
          (deformed cx_state ! (edges_of (elements ex_damped ! 0) ! 0) -
           previous cx_state ! (edges_of (elements ex_damped ! 0) ! 0)) *
          (damping ex_damped / opt_timestep ex_model)"
    by (simp add: cs fr p d)
  then have el1: "elongation ex_model cx_data2 cx_state 0 ! 0 = - (9 / 32)"
    by (simp add: cx_state_def ex_damped_def ex_solid_def ex_model_def)
  let ?m = "ex_model\<lparr>flexedge_length0 := \<lambda>i. 2\<rparr>"
  let ?d = "ex_data\<lparr>flexedge_length := \<lambda>i. 3\<rparr>"
  let ?s = "ex_solid\<lparr>f0 := 0\<rparr>"
  have g: "\<not> f0 ?s < 0" by simp
  have same: "?s\<lparr>deformed := deformed (snd (Compute ?m ?d ?s))\<rparr> = ?s"
    by (simp add: Compute_lengths)
  note r3 = elongation_used [OF e k, where m = ?m and d = ?d and s = ?s and t = 0]
  from r3 [THEN conjunct2, THEN conjunct2, THEN conjunct2, THEN conjunct2] g
  have el2: "elongation ?m ?d ?s 0 ! 0 = 5"
    by (simp add: same)
  from e k a [unfolded A] b [unfolded B] c f el1 g el2 show ?thesis
    by (intro conjI)
qed

end
